theory Spec2Isabelle
  imports Complex_Main "HOL-Library.AList" "HOL-Library.Log_Nat"
begin

section \<open>Double precision numbers and numpy.arange\<close>

text \<open>
  The notebook's time step is the Python float literal \<^verbatim>\<open>.002\<close>, and its time vectors are
  arrays of doubles. A double is modelled by the rational number it denotes; \<open>binary64 x\<close>
  is the double nearest to the rational \<open>x\<close> (53 significant bits, ties to the even
  significand). Overflow and subnormal numbers are left out: every number the notebook
  computes with lies well inside the normal range.
\<close>

definition pow2 :: "int \<Rightarrow> rat" where
  "pow2 k = (if 0 \<le> k then 2 ^ nat k else 1 / 2 ^ nat (- k))"

text \<open>The binary exponent of a nonzero rational \<open>x\<close>: the largest \<open>e\<close> with \<open>pow2 e \<le> \<bar>x\<bar>\<close>.\<close>

definition exponent_of :: "rat \<Rightarrow> int" where
  "exponent_of x =
     (case quotient_of \<bar>x\<bar> of (p, q) \<Rightarrow>
        let k = bitlen p - bitlen q in if pow2 k \<le> \<bar>x\<bar> then k else k - 1)"

definition round_half_even :: "rat \<Rightarrow> int" where
  "round_half_even x =
     (let n = \<lfloor>x\<rfloor>; r = x - of_int n
      in if r < 1 / 2 then n else if 1 / 2 < r then n + 1 else if even n then n else n + 1)"

definition binary64 :: "rat \<Rightarrow> rat" where
  "binary64 x =
     (if x = 0 then 0
      else let ulp = pow2 (exponent_of x - 52) in of_int (round_half_even (x / ulp)) * ulp)"

text \<open>
  \<^verbatim>\<open>numpy.arange(start, stop, step)\<close> for doubles: the length is the ceiling of
  \<^verbatim>\<open>(stop - start) / step\<close>, the first two entries are \<^verbatim>\<open>start\<close> and \<^verbatim>\<open>start + step\<close>, and
  entry \<open>i\<close> is \<^verbatim>\<open>start + i * delta\<close> with \<^verbatim>\<open>delta\<close> the difference of the first two, every
  operation rounded to a double.
\<close>

definition np_arange :: "rat \<Rightarrow> rat \<Rightarrow> rat \<Rightarrow> rat list" where
  "np_arange start stop step =
     (let len = nat \<lceil>binary64 (binary64 (stop - start) / step)\<rceil>;
          next = binary64 (start + step);
          delta = binary64 (next - start)
      in map (\<lambda>i. if i = 0 then start else if i = 1 then next
                   else binary64 (start + binary64 (of_nat i * delta))) [0..<len])"

text \<open>Cell 2: \<^verbatim>\<open>dt = .002\<close>, \<^verbatim>\<open>t_train = np.arange(0, 10, dt)\<close>, \<^verbatim>\<open>t_test = np.arange(0, 15, dt)\<close>.\<close>

definition dt :: rat where
  "dt = binary64 (2 / 1000)"

definition t_train :: "rat list" where
  "t_train = np_arange 0 10 dt"

definition t_test :: "rat list" where
  "t_test = np_arange 0 15 dt"

text \<open>
  The value of the arange formula at index \<open>i\<close> for start \<open>0\<close> and step \<open>dt\<close>, which is
  what both time vectors hold at \<open>i\<close>.
\<close>

definition grid_point :: "nat \<Rightarrow> rat" where
  "grid_point i =
     (if i = 0 then 0 else if i = 1 then dt else binary64 (0 + binary64 (of_nat i * dt)))"

section \<open>Python values, library calls and runs\<close>

text \<open>
  The file \<^verbatim>\<open>examples/4_scikit_learn_compatibility.ipynb\<close> is a straight-line script over
  numpy, scipy, scikit-learn and pysindy, plus one class of its own, \<^verbatim>\<open>SINDyCV\<close>.
  Apart from \<^verbatim>\<open>numpy.arange\<close> above, no library is modelled: a library is a parameter, a
  function from a call (callee, positional arguments, keyword arguments) to either the
  exception the call raises or the value it returns. What the notebook itself does
  (which calls it makes, in which order, with which arguments, and what it does with the
  results) is modelled from the cells. A run stops at the first exception, as running the
  cells top to bottom does.

  A value that a library hands out (a solution, a model, a search object) is opaque: the
  notebook only passes it on. A method that changes its receiver in place (\<^verbatim>\<open>fit\<close>)
  is modelled by state passing: the call returns the receiver as it is after the call, and
  the statements that follow use that value. A method call \<^verbatim>\<open>r.m(a)\<close> is the call of
  \<^verbatim>\<open>.m\<close> with \<open>r\<close> as first positional argument, and reading an attribute \<^verbatim>\<open>r.a\<close> is the
  call of \<^verbatim>\<open>.a\<close> on \<open>r\<close>.
\<close>

datatype py_exception = TypeError | IndexError | LibraryError string

datatype val =
    NoneV
  | BoolV bool
  | IntV int
  | FloatV rat
  | StrV string
  | ListV "val list"
  | TupleV "val list"
  | DictV "(string \<times> val) list"
  | ArrV "rat list"
  | NameV string
  | NewV string
  | ObjV nat

text \<open>
  \<open>NameV\<close> is a name imported from a library and used as a value (\<^verbatim>\<open>lorenz\<close>,
  \<^verbatim>\<open>r2_score\<close>, \<^verbatim>\<open>UserWarning\<close>); \<open>NewV c\<close> is the fresh instance of class \<open>c\<close> that a
  constructor call hands to \<^verbatim>\<open>__init__\<close>; \<open>ObjV\<close> is an opaque library value.
\<close>

datatype call = Call string "val list" "(string \<times> val) list"

datatype outcome = Returned val | Raised py_exception

type_synonym event = "call \<times> outcome"

type_synonym library = "call \<Rightarrow> py_exception + val"

type_synonym 'a prog = "library \<Rightarrow> (py_exception + 'a) \<times> event list"

definition return_prog :: "'a \<Rightarrow> 'a prog" where
  "return_prog v lib = (Inr v, [])"

definition raise_prog :: "py_exception \<Rightarrow> 'a prog" where
  "raise_prog e lib = (Inl e, [])"

definition lib_call :: "string \<Rightarrow> val list \<Rightarrow> (string \<times> val) list \<Rightarrow> val prog" where
  "lib_call f args kws lib =
     (case lib (Call f args kws) of
        Inl e \<Rightarrow> (Inl e, [(Call f args kws, Raised e)])
      | Inr v \<Rightarrow> (Inr v, [(Call f args kws, Returned v)]))"

definition bind_prog :: "'a prog \<Rightarrow> ('a \<Rightarrow> 'b prog) \<Rightarrow> 'b prog" where
  "bind_prog m f lib =
     (case m lib of
        (Inl e, tr) \<Rightarrow> (Inl e, tr)
      | (Inr v, tr) \<Rightarrow> (case f v lib of (r, tr') \<Rightarrow> (r, tr @ tr')))"

definition then_prog :: "'a prog \<Rightarrow> 'b prog \<Rightarrow> 'b prog" where
  "then_prog m k = bind_prog m (\<lambda>_. k)"

definition result :: "'a prog \<Rightarrow> library \<Rightarrow> py_exception + 'a" where
  "result m lib = fst (m lib)"

definition trace :: "'a prog \<Rightarrow> library \<Rightarrow> event list" where
  "trace m lib = snd (m lib)"

text \<open>
  A Python call \<^verbatim>\<open>f(a, k=v, **d)\<close>: the explicit keywords come first, then the entries of
  the dictionary; a key of the dictionary that repeats an explicit keyword is a
  \<^verbatim>\<open>TypeError\<close>, raised before \<^verbatim>\<open>f\<close> is entered.
\<close>

definition keys :: "(string \<times> val) list \<Rightarrow> string list" where
  "keys d = map fst d"

definition call_star ::
  "string \<Rightarrow> val list \<Rightarrow> (string \<times> val) list \<Rightarrow> (string \<times> val) list \<Rightarrow> val prog" where
  "call_star f args kws star =
     (if list_ex (\<lambda>k. k \<in> set (keys kws)) (keys star) then raise_prog TypeError
      else lib_call f args (kws @ star))"

text \<open>A parameter with a default value: \<open>None\<close> stands for an argument the caller left out.\<close>

definition given_or :: "val \<Rightarrow> val option \<Rightarrow> val" where
  "given_or d given = (case given of None \<Rightarrow> d | Some v \<Rightarrow> v)"

text \<open>Indexing an array, \<^verbatim>\<open>a[i]\<close>: a negative index counts from the end.\<close>

definition py_index :: "rat list \<Rightarrow> int \<Rightarrow> py_exception + rat" where
  "py_index xs i =
     (if 0 \<le> i \<and> i < int (length xs) then Inr (xs ! nat i)
      else if i < 0 \<and> - int (length xs) \<le> i then Inr (xs ! nat (int (length xs) + i))
      else Inl IndexError)"

definition index_prog :: "rat list \<Rightarrow> int \<Rightarrow> val prog" where
  "index_prog xs i = (case py_index xs i of Inl e \<Rightarrow> raise_prog e | Inr v \<Rightarrow> return_prog (FloatV v))"

text \<open>A float literal of the source denotes the double nearest to its decimal value.\<close>

definition float_lit :: "rat \<Rightarrow> val" where
  "float_lit q = FloatV (binary64 q)"

text \<open>\<^verbatim>\<open>import m\<close> and \<^verbatim>\<open>from m import a\<close>: a call into the import system, which may raise.\<close>

definition py_import :: "string \<Rightarrow> string list \<Rightarrow> val prog" where
  "py_import m names = lib_call ''import'' (StrV m # map StrV names) []"

section \<open>The class SINDyCV\<close>

text \<open>
  \<^verbatim>\<open>class SINDyCV(ps.SINDy)\<close>, cell 5. The parent class \<^verbatim>\<open>ps.SINDy\<close> is not in the file; its
  methods are calls into the library, named \<^verbatim>\<open>SINDy.__init__\<close>, \<^verbatim>\<open>SINDy.fit\<close> and
  \<^verbatim>\<open>SINDy.score\<close>, with \<^verbatim>\<open>self\<close> as first positional argument. \<^verbatim>\<open>SINDy.__init__\<close> returns
  the initialised instance.
\<close>

record init_args =
  optimizer :: val
  feature_library :: val
  differentiation_method :: val
  feature_names :: val
  t_default :: val
  discrete_time :: val

definition SINDyCV_init_defaults :: init_args where
  "SINDyCV_init_defaults =
     \<lparr>optimizer = NoneV, feature_library = NoneV, differentiation_method = NoneV,
      feature_names = NoneV, t_default = IntV 1, discrete_time = BoolV False\<rparr>"

definition SINDyCV_init :: "val \<Rightarrow> init_args \<Rightarrow> val prog" where
  "SINDyCV_init self a =
     lib_call ''SINDy.__init__'' [self]
       [(''optimizer'', optimizer a),
        (''feature_library'', feature_library a),
        (''differentiation_method'', differentiation_method a),
        (''feature_names'', feature_names a),
        (''t_default'', t_default a),
        (''discrete_time'', discrete_time a)]"

definition SINDyCV_fit :: "val \<Rightarrow> val \<Rightarrow> val \<Rightarrow> (string \<times> val) list \<Rightarrow> val prog" where
  "SINDyCV_fit self x y kwargs = call_star ''SINDy.fit'' [self, x] [(''x_dot'', y)] kwargs"

definition SINDyCV_score ::
  "val \<Rightarrow> val \<Rightarrow> val \<Rightarrow> val option \<Rightarrow> val option \<Rightarrow> val option \<Rightarrow> val option \<Rightarrow>
   (string \<times> val) list \<Rightarrow> val prog" where
  "SINDyCV_score self x y t u multiple_trajectories metric metric_kws =
     call_star ''SINDy.score'' [self, x]
       [(''x_dot'', y),
        (''t'', given_or NoneV t),
        (''u'', given_or NoneV u),
        (''multiple_trajectories'', given_or (BoolV False) multiple_trajectories),
        (''metric'', given_or (NameV ''r2_score'') metric)]
       metric_kws"

section \<open>The cells of the notebook\<close>

text \<open>Cell 1: the imports, the two warning filters, and the integrator keywords.\<close>

definition integrator_keywords :: "(string \<times> val) list" where
  "integrator_keywords =
     AList.update ''atol'' (float_lit (1 / 10 ^ 10))
       (AList.update ''method'' (StrV ''LSODA'')
         (AList.update ''rtol'' (float_lit (1 / 10 ^ 15)) []))"

definition cell1 :: "(string \<times> val) list prog" where
  "cell1 =
     then_prog (py_import ''numpy'' [])
    (then_prog (py_import ''scipy.integrate'' [''solve_ivp''])
    (then_prog (py_import ''pysindy.utils'' [''lorenz''])
    (then_prog (py_import ''pysindy'' [])
    (then_prog (py_import ''warnings'' [])
    (then_prog (lib_call ''warnings.filterwarnings'' [StrV ''ignore'']
                  [(''category'', NameV ''UserWarning'')])
    (then_prog (lib_call ''warnings.filterwarnings'' [StrV ''ignore'']
                  [(''category'', NameV ''FutureWarning'')])
    (return_prog integrator_keywords)))))))"

text \<open>
  Cell 2, first half: the training trajectory \<^verbatim>\<open>x_train\<close>, which the cell returns. The
  second half computes \<^verbatim>\<open>x_test\<close>; it is a definition of its own, with the list given to
  \<^verbatim>\<open>np.array\<close> as a parameter, so that runs with another initial condition, or without the
  test trajectory, can be compared with the run of the file.
\<close>

definition cell2_train :: "(string \<times> val) list \<Rightarrow> val prog" where
  "cell2_train ik =
     bind_prog (index_prog t_train 0) (\<lambda>t_first.
     bind_prog (index_prog t_train (- 1)) (\<lambda>t_last.
     bind_prog (call_star ''solve_ivp''
                  [NameV ''lorenz'', TupleV [t_first, t_last], ListV [IntV (- 8), IntV 8, IntV 27]]
                  [(''t_eval'', ArrV t_train)] ik) (\<lambda>sol.
     bind_prog (lib_call ''.y'' [sol] []) (\<lambda>y.
     lib_call ''.T'' [y] []))))"

definition cell2_test :: "val \<Rightarrow> (string \<times> val) list \<Rightarrow> val prog" where
  "cell2_test x0_literal ik =
     bind_prog (index_prog t_test 0) (\<lambda>t_first.
     bind_prog (index_prog t_test (- 1)) (\<lambda>t_last.
     bind_prog (lib_call ''np.array'' [x0_literal] []) (\<lambda>x0_test.
     bind_prog (call_star ''solve_ivp''
                  [NameV ''lorenz'', TupleV [t_first, t_last], x0_test]
                  [(''t_eval'', ArrV t_test)] ik) (\<lambda>sol.
     bind_prog (lib_call ''.y'' [sol] []) (\<lambda>y.
     lib_call ''.T'' [y] [])))))"

definition x0_test_literal :: val where
  "x0_test_literal = ListV [IntV 8, IntV 7, IntV 15]"

text \<open>The last five statements of cells 3, 4 and 6: fit the search, print the best.\<close>

definition fit_and_report :: "val \<Rightarrow> val list \<Rightarrow> (string \<times> val) list \<Rightarrow> val prog" where
  "fit_and_report search args kws =
     bind_prog (lib_call ''.fit'' (search # args) kws) (\<lambda>fitted.
     bind_prog (lib_call ''.best_params_'' [fitted] []) (\<lambda>best_params.
     then_prog (lib_call ''print'' [StrV ''Best parameters:'', best_params] [])
    (bind_prog (lib_call ''.best_estimator_'' [fitted] []) (\<lambda>best_estimator.
     lib_call ''.print'' [best_estimator] []))))"

text \<open>Cell 3: grid search with \<^verbatim>\<open>TimeSeriesSplit\<close>.\<close>

definition cell3 :: "val \<Rightarrow> val prog" where
  "cell3 x_train =
     then_prog (py_import ''sklearn.model_selection'' [''GridSearchCV''])
    (then_prog (py_import ''sklearn.model_selection'' [''TimeSeriesSplit''])
    (bind_prog (lib_call ''ps.SINDy'' [] [(''t_default'', FloatV dt)]) (\<lambda>model.
     bind_prog (lib_call ''ps.PolynomialLibrary'' [] []) (\<lambda>polynomial.
     bind_prog (lib_call ''ps.FourierLibrary'' [] []) (\<lambda>fourier.
     bind_prog (lib_call ''TimeSeriesSplit'' [] [(''n_splits'', IntV 5)]) (\<lambda>cv.
     bind_prog (lib_call ''GridSearchCV''
                  [model,
                   DictV [(''optimizer__threshold'',
                             ListV [float_lit (1 / 1000), float_lit (1 / 100), float_lit (1 / 10)]),
                          (''optimizer__alpha'',
                             ListV [float_lit (1 / 100), float_lit (5 / 100), float_lit (1 / 10)]),
                          (''feature_library'', ListV [polynomial, fourier]),
                          (''differentiation_method__order'', ListV [IntV 1, IntV 2])]]
                  [(''cv'', cv)]) (\<lambda>search.
     fit_and_report search [x_train] [])))))))"

text \<open>Cell 4: the same with a differentiation method of the \<^verbatim>\<open>derivative\<close> package.\<close>

definition cell4 :: "val \<Rightarrow> val prog" where
  "cell4 x_train =
     bind_prog (lib_call ''ps.SINDyDerivative'' []
                  [(''kind'', StrV ''spline''), (''s'', float_lit (1 / 100))]) (\<lambda>derivative.
     bind_prog (lib_call ''ps.SINDy'' []
                  [(''t_default'', FloatV dt), (''differentiation_method'', derivative)]) (\<lambda>model.
     bind_prog (lib_call ''TimeSeriesSplit'' [] [(''n_splits'', IntV 5)]) (\<lambda>cv.
     bind_prog (lib_call ''GridSearchCV''
                  [model,
                   DictV [(''optimizer__threshold'',
                             ListV [float_lit (1 / 1000), float_lit (1 / 100), float_lit (1 / 10)]),
                          (''differentiation_method__kwargs'',
                             ListV [DictV [(''kind'', StrV ''spline''), (''s'', float_lit (1 / 100))],
                                    DictV [(''kind'', StrV ''spline''), (''s'', float_lit (1 / 10))],
                                    DictV [(''kind'', StrV ''finite_difference''), (''k'', IntV 1)],
                                    DictV [(''kind'', StrV ''finite_difference''), (''k'', IntV 2)]])]]
                  [(''cv'', cv)]) (\<lambda>search.
     fit_and_report search [x_train] []))))"

text \<open>Cell 5: one import and the class definition (section above).\<close>

definition cell5 :: "val prog" where
  "cell5 = py_import ''sklearn.metrics'' [''r2_score'']"

text \<open>
  Cell 6: \<^verbatim>\<open>model = SINDyCV()\<close>, derivatives computed once from the whole trajectory, grid
  search with \<^verbatim>\<open>ShuffleSplit\<close>.
\<close>

definition cell6 :: "val \<Rightarrow> val prog" where
  "cell6 x_train =
     then_prog (py_import ''sklearn.model_selection'' [''ShuffleSplit''])
    (bind_prog (SINDyCV_init (NewV ''SINDyCV'') SINDyCV_init_defaults) (\<lambda>model.
     bind_prog (lib_call ''.differentiate'' [model, x_train] [(''t'', ArrV t_train)]) (\<lambda>x_dot.
     bind_prog (lib_call ''ShuffleSplit'' []
                  [(''n_splits'', IntV 3), (''test_size'', float_lit (25 / 100))]) (\<lambda>cv.
     bind_prog (lib_call ''GridSearchCV''
                  [model,
                   DictV [(''optimizer__threshold'',
                             ListV [float_lit (2 / 1000), float_lit (1 / 100), float_lit (1 / 10)]),
                          (''optimizer__alpha'',
                             ListV [float_lit (1 / 100), float_lit (5 / 100), float_lit (1 / 10)]),
                          (''feature_library__degree'', ListV [IntV 1, IntV 2, IntV 3])]]
                  [(''cv'', cv)]) (\<lambda>search.
     fit_and_report search [x_train] [(''y'', x_dot)])))))"

text \<open>Cells 7 and 8: a scikit-learn regressor as optimizer, fitted directly.\<close>

definition cell7 :: "val \<Rightarrow> val prog" where
  "cell7 x_train =
     then_prog (py_import ''sklearn.linear_model'' [''ElasticNet''])
    (bind_prog (lib_call ''ElasticNet'' []
                  [(''l1_ratio'', float_lit (9 / 10)), (''fit_intercept'', BoolV False)]) (\<lambda>regressor.
     bind_prog (lib_call ''ps.SINDy'' []
                  [(''optimizer'', regressor), (''t_default'', FloatV dt)]) (\<lambda>model.
     bind_prog (lib_call ''.fit'' [model, x_train] []) (\<lambda>fitted.
     lib_call ''.print'' [fitted] []))))"

definition cell8 :: "val \<Rightarrow> val prog" where
  "cell8 x_train =
     then_prog (py_import ''sklearn.linear_model'' [''OrthogonalMatchingPursuit''])
    (bind_prog (lib_call ''OrthogonalMatchingPursuit'' []
                  [(''n_nonzero_coefs'', IntV 8), (''fit_intercept'', BoolV False)]) (\<lambda>regressor.
     bind_prog (lib_call ''ps.SINDy'' []
                  [(''optimizer'', regressor), (''t_default'', FloatV dt)]) (\<lambda>model.
     bind_prog (lib_call ''.fit'' [model, x_train] []) (\<lambda>fitted.
     lib_call ''.print'' [fitted] []))))"

text \<open>The notebook, top to bottom.\<close>

definition cells_3_to_8 :: "val \<Rightarrow> val prog" where
  "cells_3_to_8 x_train =
     then_prog (cell3 x_train)
    (then_prog (cell4 x_train)
    (then_prog cell5
    (then_prog (cell6 x_train)
    (then_prog (cell7 x_train)
               (cell8 x_train)))))"

definition notebook_with :: "val \<Rightarrow> val prog" where
  "notebook_with x0_literal =
     bind_prog cell1 (\<lambda>ik.
     bind_prog (cell2_train ik) (\<lambda>x_train.
     then_prog (cell2_test x0_literal ik)
               (cells_3_to_8 x_train)))"

definition notebook :: "val prog" where
  "notebook = notebook_with x0_test_literal"

text \<open>The notebook with the four statements that compute \<^verbatim>\<open>x_test\<close> taken out.\<close>

definition notebook_without_test :: "val prog" where
  "notebook_without_test =
     bind_prog cell1 (\<lambda>ik.
     bind_prog (cell2_train ik) (\<lambda>x_train.
     cells_3_to_8 x_train))"

section \<open>Reading a trace\<close>

definition callee :: "event \<Rightarrow> string" where
  "callee ev = (case fst ev of Call f args kws \<Rightarrow> f)"

definition arguments :: "event \<Rightarrow> val list" where
  "arguments ev = (case fst ev of Call f args kws \<Rightarrow> args)"

definition keyword :: "event \<Rightarrow> string \<Rightarrow> val option" where
  "keyword ev k = (case fst ev of Call f args kws \<Rightarrow> map_of kws k)"

text \<open>The first positional argument: the receiver of a method call, the model given to a search.\<close>

definition receiver :: "event \<Rightarrow> val option" where
  "receiver ev = (case arguments ev of [] \<Rightarrow> None | a # rest \<Rightarrow> Some a)"

definition returned :: "val \<Rightarrow> event \<Rightarrow> bool" where
  "returned v ev \<longleftrightarrow> snd ev = Returned v"

definition raised :: "py_exception \<Rightarrow> event \<Rightarrow> bool" where
  "raised e ev \<longleftrightarrow> snd ev = Raised e"

definition completes :: "'a prog \<Rightarrow> library \<Rightarrow> bool" where
  "completes m lib = (case result m lib of Inl e \<Rightarrow> False | Inr v \<Rightarrow> True)"

definition is_integration :: "event \<Rightarrow> bool" where
  "is_integration ev \<longleftrightarrow> callee ev = ''solve_ivp''"

text \<open>
  A model is constructed by \<^verbatim>\<open>ps.SINDy(...)\<close>, or by \<^verbatim>\<open>SINDyCV(...)\<close>, whose \<^verbatim>\<open>__init__\<close> is
  the call of \<^verbatim>\<open>SINDy.__init__\<close>.
\<close>

definition is_model_construction :: "event \<Rightarrow> bool" where
  "is_model_construction ev \<longleftrightarrow> callee ev = ''ps.SINDy'' \<or> callee ev = ''SINDy.__init__''"

definition is_search_construction :: "event \<Rightarrow> bool" where
  "is_search_construction ev \<longleftrightarrow> callee ev = ''GridSearchCV''"

definition is_fit :: "event \<Rightarrow> bool" where
  "is_fit ev \<longleftrightarrow> callee ev = ''.fit''"

definition is_print :: "event \<Rightarrow> bool" where
  "is_print ev \<longleftrightarrow> callee ev = ''print'' \<or> callee ev = ''.print''"

definition is_warning_filter :: "event \<Rightarrow> bool" where
  "is_warning_filter ev \<longleftrightarrow> callee ev = ''warnings.filterwarnings''"

text \<open>What a run prints: its print events, with what was printed and in which order.\<close>

definition printed :: "event list \<Rightarrow> event list" where
  "printed tr = filter is_print tr"

text \<open>
  What a model construction passes as \<^verbatim>\<open>t_default\<close>: \<open>dt\<close> when it is a call of
  \<^verbatim>\<open>ps.SINDy\<close>, the integer 1 when it is the \<^verbatim>\<open>__init__\<close> of \<^verbatim>\<open>SINDyCV\<close>.
\<close>

definition passes_t_default :: "event \<Rightarrow> bool" where
  "passes_t_default ev \<longleftrightarrow>
     (callee ev = ''ps.SINDy'' \<longrightarrow> keyword ev ''t_default'' = Some (FloatV dt)) \<and>
     (callee ev = ''SINDy.__init__'' \<longrightarrow> keyword ev ''t_default'' = Some (IntV 1))"

text \<open>The \<^verbatim>\<open>t_default\<close> each model construction of a trace passes, in order.\<close>

definition t_defaults_passed :: "event list \<Rightarrow> val option list" where
  "t_defaults_passed tr = map (\<lambda>ev. keyword ev ''t_default'') (filter is_model_construction tr)"

text \<open>
  \<open>built_before pre ev\<close>: the object \<open>ev\<close> is given (its first argument) is the value that
  an earlier, completed constructor call returned: a model for a search, a model or a
  search for \<^verbatim>\<open>fit\<close>.
\<close>

definition built_before :: "event list \<Rightarrow> event \<Rightarrow> bool" where
  "built_before pre ev \<longleftrightarrow>
     (\<exists>c \<in> set pre. \<exists>m. receiver ev = Some m \<and> returned m c \<and>
        (is_model_construction c \<or> (is_fit ev \<and> is_search_construction c)))"

text \<open>
  \<open>reports_fit pre ev\<close>: what the print event \<open>ev\<close> prints is the value a completed
  \<^verbatim>\<open>fit\<close> returned, or an attribute read from that value.
\<close>

definition reports_fit :: "event list \<Rightarrow> event \<Rightarrow> bool" where
  "reports_fit pre ev \<longleftrightarrow>
     (\<exists>f \<in> set pre. \<exists>v. is_fit f \<and> returned v f \<and>
        (v \<in> set (arguments ev) \<or>
         (\<exists>a \<in> set pre. \<exists>w. arguments a = [v] \<and> returned w a \<and> w \<in> set (arguments ev))))"

definition in_order :: "event list \<Rightarrow> event \<Rightarrow> bool" where
  "in_order pre ev \<longleftrightarrow>
     ((is_search_construction ev \<or> is_fit ev) \<longrightarrow> built_before pre ev) \<and>
     (is_print ev \<longrightarrow> reports_fit pre ev)"

text \<open>Properties of every run of a program, used to carry facts from the cells to the notebook.\<close>

definition all_events :: "(event \<Rightarrow> bool) \<Rightarrow> 'a prog \<Rightarrow> bool" where
  "all_events P m \<longleftrightarrow> (\<forall>lib. \<forall>ev \<in> set (trace m lib). P ev)"

definition each_after :: "(event list \<Rightarrow> event \<Rightarrow> bool) \<Rightarrow> event list \<Rightarrow> bool" where
  "each_after Q tr \<longleftrightarrow> (\<forall>k < length tr. Q (take k tr) (tr ! k))"

definition propagates :: "'a prog \<Rightarrow> bool" where
  "propagates m \<longleftrightarrow>
     (\<forall>lib k e. k < length (trace m lib) \<and> raised e (trace m lib ! k) \<longrightarrow>
        Suc k = length (trace m lib) \<and> result m lib = Inl e)"

definition fails_in_library :: "'a prog \<Rightarrow> bool" where
  "fails_in_library m \<longleftrightarrow>
     (\<forall>lib e. result m lib = Inl e \<longrightarrow> trace m lib \<noteq> [] \<and> raised e (last (trace m lib)))"

definition makes_calls :: "'a prog \<Rightarrow> string list \<Rightarrow> bool" where
  "makes_calls m fs \<longleftrightarrow> (\<forall>lib. completes m lib \<longrightarrow> map callee (trace m lib) = fs)"

definition ordered :: "'a prog \<Rightarrow> bool" where
  "ordered m \<longleftrightarrow> (\<forall>lib. each_after in_order (trace m lib))"

text \<open>The callees of cell 1, of cell 2 and of cells 3 to 8.\<close>

definition setup_callees :: "string set" where
  "setup_callees = {''import'', ''warnings.filterwarnings''}"

definition datagen_callees :: "string set" where
  "datagen_callees = {''np.array'', ''solve_ivp'', ''.y'', ''.T''}"

definition model_callees :: "string set" where
  "model_callees = {''import'', ''ps.SINDy'', ''SINDy.__init__'', ''ps.PolynomialLibrary'',
     ''ps.FourierLibrary'', ''ps.SINDyDerivative'', ''TimeSeriesSplit'', ''ShuffleSplit'',
     ''GridSearchCV'', ''ElasticNet'', ''OrthogonalMatchingPursuit'', ''.differentiate'',
     ''.fit'', ''.best_params_'', ''print'', ''.best_estimator_'', ''.print''}"

section \<open>What the claims compare the code with\<close>

text \<open>
  The parent's methods as the library provides them: \<open>SINDy_fit lib self x kws\<close> is what
  \<^verbatim>\<open>SINDy.fit(self, x, **kws)\<close> returns (or raises), and likewise for \<^verbatim>\<open>score\<close>.
\<close>

definition SINDy_fit :: "library \<Rightarrow> val \<Rightarrow> val \<Rightarrow> (string \<times> val) list \<Rightarrow> py_exception + val" where
  "SINDy_fit lib self x kws = lib (Call ''SINDy.fit'' [self, x] kws)"

definition SINDy_score :: "library \<Rightarrow> val \<Rightarrow> val \<Rightarrow> (string \<times> val) list \<Rightarrow> py_exception + val" where
  "SINDy_score lib self x kws = lib (Call ''SINDy.score'' [self, x] kws)"

definition delegated_fit :: "library \<Rightarrow> val \<Rightarrow> val \<Rightarrow> val \<Rightarrow> (string \<times> val) list \<Rightarrow> py_exception + val" where
  "delegated_fit lib self x y kwargs = SINDy_fit lib self x ((''x_dot'', y) # kwargs)"

definition delegated_score ::
  "library \<Rightarrow> val \<Rightarrow> val \<Rightarrow> val \<Rightarrow> val \<Rightarrow> val \<Rightarrow> val \<Rightarrow> val option \<Rightarrow>
   (string \<times> val) list \<Rightarrow> py_exception + val" where
  "delegated_score lib self x y t u multiple_trajectories metric metric_kws =
     SINDy_score lib self x
       ([(''x_dot'', y), (''t'', t), (''u'', u),
         (''multiple_trajectories'', multiple_trajectories),
         (''metric'', (case metric of None \<Rightarrow> NameV ''r2_score'' | Some m \<Rightarrow> m))]
        @ metric_kws)"

text \<open>The named parameters of \<^verbatim>\<open>SINDyCV.score\<close> that have defaults.\<close>

definition score_named :: "string set" where
  "score_named = {''t'', ''u'', ''multiple_trajectories'', ''metric''}"

text \<open>The two calls of cell 1 that touch the warnings filter.\<close>

definition warning_filters :: "call list" where
  "warning_filters =
     [Call ''warnings.filterwarnings'' [StrV ''ignore''] [(''category'', NameV ''UserWarning'')],
      Call ''warnings.filterwarnings'' [StrV ''ignore''] [(''category'', NameV ''FutureWarning'')]]"

text \<open>
  A library to run the model on: every call returns a record of itself (callee, positional
  arguments, keyword dictionary), so a result shows exactly what the library was asked.
\<close>

definition echo_library :: library where
  "echo_library c = (case c of Call f args kws \<Rightarrow> Inr (TupleV [StrV f, ListV args, DictV kws]))"

text \<open>
  The operations of the notebook, cell by cell: the callees of the library calls it makes
  when every call returns, in the order of the source. \<open>printed_operations\<close> are the
  print statements among them.
\<close>

definition report_operations :: "string list" where
  "report_operations = [''.fit'', ''.best_params_'', ''print'', ''.best_estimator_'', ''.print'']"

definition notebook_operations :: "string list" where
  "notebook_operations =
     [''import'', ''import'', ''import'', ''import'', ''import'',
      ''warnings.filterwarnings'', ''warnings.filterwarnings'']
     @ [''solve_ivp'', ''.y'', ''.T'']
     @ [''np.array'', ''solve_ivp'', ''.y'', ''.T'']
     @ [''import'', ''import'', ''ps.SINDy'', ''ps.PolynomialLibrary'', ''ps.FourierLibrary'',
        ''TimeSeriesSplit'', ''GridSearchCV''] @ report_operations
     @ [''ps.SINDyDerivative'', ''ps.SINDy'', ''TimeSeriesSplit'', ''GridSearchCV'']
       @ report_operations
     @ [''import'']
     @ [''import'', ''SINDy.__init__'', ''.differentiate'', ''ShuffleSplit'', ''GridSearchCV'']
       @ report_operations
     @ [''import'', ''ElasticNet'', ''ps.SINDy'', ''.fit'', ''.print'']
     @ [''import'', ''OrthogonalMatchingPursuit'', ''ps.SINDy'', ''.fit'', ''.print'']"

definition printed_operations :: "string list" where
  "printed_operations =
     [''print'', ''.print'', ''print'', ''.print'', ''print'', ''.print'', ''.print'', ''.print'']"

text \<open>
  A library whose \<^verbatim>\<open>solve_ivp\<close> refuses an initial condition that has not three
  components (\<^verbatim>\<open>lorenz\<close> reads \<^verbatim>\<open>x[2]\<close>), and otherwise answers as \<open>echo_library\<close>. The
  initial condition is a list, or what \<^verbatim>\<open>np.array\<close> returned for a list.
\<close>

definition three_components :: "val \<Rightarrow> bool" where
  "three_components x0 =
     (case x0 of
        ListV xs \<Rightarrow> length xs = 3
      | TupleV [StrV f, ListV [ListV xs], DictV kws] \<Rightarrow> f = ''np.array'' \<and> length xs = 3
      | _ \<Rightarrow> False)"

definition strict_library :: library where
  "strict_library c =
     (case c of Call f args kws \<Rightarrow>
        if f = ''solve_ivp'' \<and> \<not> (case args of [g, tspan, y0] \<Rightarrow> three_components y0 | _ \<Rightarrow> False)
        then Inl (LibraryError ''IndexError'')
        else echo_library c)"

text \<open>
  A machine without pysindy: importing it raises, every other call answers as above.
\<close>

definition no_pysindy_library :: library where
  "no_pysindy_library c =
     (case c of Call f args kws \<Rightarrow>
        if f = ''import'' \<and> (StrV ''pysindy'' \<in> set args \<or> StrV ''pysindy.utils'' \<in> set args)
        then Inl (LibraryError ''ModuleNotFoundError'')
        else echo_library c)"

section \<open>Rounding to a double\<close>

lemma pow2_pos: "0 < pow2 k"
  by (simp add: pow2_def)

lemma pow2_add: "pow2 (a + b) = pow2 a * pow2 b"
proof -
  have "pow2 k = 2 powi k" for k
    by (simp add: pow2_def power_int_def field_simps)
  then show ?thesis
    by (simp add: power_int_add)
qed

lemma pow2_mono: "a \<le> b \<Longrightarrow> pow2 a \<le> pow2 b"
proof -
  assume "a \<le> b"
  then obtain n where b: "b = a + int n"
    by (metis nonneg_int_cases diff_ge_0_iff_ge add_diff_cancel_left' diff_add_cancel)
  have "(1::rat) \<le> 2 ^ n" by simp
  then have "pow2 a * 1 \<le> pow2 a * pow2 (int n)"
    using pow2_pos [of a] by (simp add: pow2_def)
  then show ?thesis by (simp add: b pow2_add)
qed

lemma pow2_numeral: "pow2 4 = 16" "pow2 (- 50) = 1 / 2 ^ 50"
  by (simp_all add: pow2_def)

lemma round_half_even_error: "\<bar>of_int (round_half_even x) - x\<bar> \<le> 1 / 2"
proof -
  have "of_int \<lfloor>x\<rfloor> \<le> x" "x < of_int \<lfloor>x\<rfloor> + 1" by linarith+
  then show ?thesis
    by (auto simp: round_half_even_def Let_def abs_le_iff)
qed

text \<open>Rounding moves a number by at most half a unit in the last place.\<close>

lemma binary64_error: "\<bar>binary64 x - x\<bar> \<le> pow2 (exponent_of x - 53)"
proof (cases "x = 0")
  case True
  then show ?thesis using pow2_pos [of "exponent_of x - 53"] by (simp add: binary64_def)
next
  case False
  define ulp where "ulp = pow2 (exponent_of x - 52)"
  have ulp: "0 < ulp" by (simp add: ulp_def pow2_pos)
  have "binary64 x - x = (of_int (round_half_even (x / ulp)) - x / ulp) * ulp"
    using False ulp by (simp add: binary64_def ulp_def [symmetric] Let_def field_simps)
  then have "\<bar>binary64 x - x\<bar> = \<bar>of_int (round_half_even (x / ulp)) - x / ulp\<bar> * ulp"
    using ulp by (simp add: abs_mult)
  also have "\<dots> \<le> (1 / 2) * ulp"
    using round_half_even_error [of "x / ulp"] ulp by (simp add: mult_right_mono)
  also have "\<dots> = pow2 (exponent_of x - 53)"
    using pow2_add [of "exponent_of x - 53" 1] by (simp add: ulp_def pow2_def [of 1])
  finally show ?thesis .
qed

text \<open>
  \<open>exponent_of x\<close> is the binary exponent of \<open>x\<close>: \<open>x\<close> lies between \<open>2\<close> to that power
  and the next power of two, so \<open>binary64\<close> keeps exactly 53 significant bits.
\<close>

lemma exponent_of_lower: "x \<noteq> 0 \<Longrightarrow> pow2 (exponent_of x) \<le> \<bar>x\<bar>"
proof -
  assume x: "x \<noteq> 0"
  obtain p q where pq: "quotient_of \<bar>x\<bar> = (p, q)" by (cases "quotient_of \<bar>x\<bar>")
  have q: "0 < q" using pq quotient_of_denom_pos by blast
  have ax: "\<bar>x\<bar> = of_int p / of_int q" using pq quotient_of_div by blast
  have "0 < \<bar>x\<bar>" using x by simp
  then have p: "0 < p" using q ax by (simp add: zero_less_divide_iff)
  define k where "k = bitlen p - bitlen q"
  show ?thesis
  proof (cases "pow2 k \<le> \<bar>x\<bar>")
    case True
    then show ?thesis by (simp add: exponent_of_def pq k_def Let_def)
  next
    case False
    have bp: "1 \<le> bitlen p" using p by (simp add: bitlen_alt_def)
    have bq: "1 \<le> bitlen q" using q by (simp add: bitlen_alt_def)
    have lp: "(2::int) ^ nat (bitlen p - 1) \<le> p" using bitlen_bounds [OF p] by simp
    have uq: "q < 2 ^ nat (bitlen q)" using bitlen_bounds [OF q] by simp
    have lp': "pow2 (bitlen p - 1) \<le> of_int p"
    proof -
      have "(of_int ((2::int) ^ nat (bitlen p - 1)) :: rat) \<le> of_int p"
        using lp of_int_le_iff by blast
      then show ?thesis using bp by (simp add: pow2_def)
    qed
    have uq': "of_int q \<le> pow2 (bitlen q)"
    proof -
      have "(of_int q :: rat) \<le> of_int ((2::int) ^ nat (bitlen q))"
        using uq of_int_le_iff less_imp_le by blast
      then show ?thesis using bq by (simp add: pow2_def)
    qed
    have "pow2 (k - 1) * pow2 (bitlen q) = pow2 (bitlen p - 1)"
      by (simp add: k_def pow2_add [symmetric])
    then have "pow2 (k - 1) * of_int q \<le> of_int p"
      using lp' uq' pow2_pos [of "k - 1"]
      by (smt (verit, best) mult_left_mono less_imp_le order_trans)
    then have "pow2 (k - 1) \<le> \<bar>x\<bar>"
      using q by (simp add: ax pos_le_divide_eq)
    then show ?thesis using False by (simp add: exponent_of_def pq k_def Let_def)
  qed
qed

lemma exponent_of_strict_upper: "x \<noteq> 0 \<Longrightarrow> \<bar>x\<bar> < pow2 (exponent_of x + 1)"
proof -
  assume x: "x \<noteq> 0"
  obtain p q where pq: "quotient_of \<bar>x\<bar> = (p, q)" by (cases "quotient_of \<bar>x\<bar>")
  have q: "0 < q" using pq quotient_of_denom_pos by blast
  have ax: "\<bar>x\<bar> = of_int p / of_int q" using pq quotient_of_div by blast
  have "0 < \<bar>x\<bar>" using x by simp
  then have p: "0 < p" using q ax by (simp add: zero_less_divide_iff)
  define k where "k = bitlen p - bitlen q"
  show ?thesis
  proof (cases "pow2 k \<le> \<bar>x\<bar>")
    case False
    then show ?thesis by (simp add: exponent_of_def pq k_def Let_def)
  next
    case True
    have bp: "1 \<le> bitlen p" using p by (simp add: bitlen_alt_def)
    have bq: "1 \<le> bitlen q" using q by (simp add: bitlen_alt_def)
    have "p < 2 ^ nat (bitlen p)" using bitlen_bounds [OF p] by simp
    then have "(of_int p :: rat) < of_int ((2::int) ^ nat (bitlen p))"
      using of_int_less_iff by blast
    then have up: "of_int p < pow2 (bitlen p)" using bp by (simp add: pow2_def)
    have "(2::int) ^ nat (bitlen q - 1) \<le> q" using bitlen_bounds [OF q] by simp
    then have "(of_int ((2::int) ^ nat (bitlen q - 1)) :: rat) \<le> of_int q"
      using of_int_le_iff by blast
    then have lq: "pow2 (bitlen q - 1) \<le> of_int q" using bq by (simp add: pow2_def)
    have "pow2 (k + 1) * pow2 (bitlen q - 1) = pow2 (bitlen p)"
      by (simp add: k_def pow2_add [symmetric])
    moreover have "pow2 (k + 1) * pow2 (bitlen q - 1) \<le> pow2 (k + 1) * of_int q"
      using lq pow2_pos [of "k + 1"] by (simp add: mult_left_mono)
    ultimately have "of_int p < pow2 (k + 1) * of_int q" using up by simp
    then have "\<bar>x\<bar> < pow2 (k + 1)"
      using q by (simp add: ax pos_divide_less_eq)
    then show ?thesis using True by (simp add: exponent_of_def pq k_def Let_def)
  qed
qed

lemma exponent_of_upper: "x \<noteq> 0 \<Longrightarrow> \<bar>x\<bar> < pow2 k \<Longrightarrow> exponent_of x < k"
proof (rule ccontr)
  assume x: "x \<noteq> 0" and lt: "\<bar>x\<bar> < pow2 k" and "\<not> exponent_of x < k"
  then have "pow2 k \<le> pow2 (exponent_of x)" by (simp add: pow2_mono)
  with exponent_of_lower [OF x] lt show False by simp
qed

lemma binary64_error_below_16: "\<bar>x\<bar> < 16 \<Longrightarrow> \<bar>binary64 x - x\<bar> \<le> 1 / 2 ^ 50"
proof (cases "x = 0")
  case True
  then show ?thesis by (simp add: binary64_def)
next
  case False
  assume "\<bar>x\<bar> < 16"
  then have "exponent_of x < 4" using exponent_of_upper [OF False, of 4] by (simp add: pow2_numeral)
  then have "pow2 (exponent_of x - 53) \<le> pow2 (- 50)" by (intro pow2_mono) simp
  with binary64_error [of x] show ?thesis by (simp add: pow2_numeral)
qed

section \<open>The time vectors\<close>

text \<open>
  The double of the literal \<^verbatim>\<open>.002\<close>: Python prints \<^verbatim>\<open>(.002).hex()\<close> as
  \<^verbatim>\<open>0x1.0624dd2f1a9fcp-9\<close>, and the hexadecimal number \<^verbatim>\<open>10624dd2f1a9fc\<close> is
  4611686018427388.
\<close>

lemma dt_value: "dt = 4611686018427388 / 2 ^ 61"
  by code_simp

lemma dt_bounds: "2 / 1000 < dt" "dt < 2001 / 1000000"
  by (simp_all add: dt_value)

lemma length_np_arange:
  "length (np_arange start stop step) = nat \<lceil>binary64 (binary64 (stop - start) / step)\<rceil>"
  by (simp add: np_arange_def Let_def)

lemma nth_np_arange:
  "i < length (np_arange start stop step) \<Longrightarrow>
   np_arange start stop step ! i =
     (if i = 0 then start else if i = 1 then binary64 (start + step)
      else binary64 (start + binary64 (of_nat i * binary64 (binary64 (start + step) - start))))"
  by (simp add: np_arange_def Let_def)

lemma dt_round_trip: "binary64 (0 + dt) = dt" "binary64 (dt - 0) = dt"
  by code_simp+

lemma arange_lengths:
  "nat \<lceil>binary64 (binary64 (10 - 0) / dt)\<rceil> = 5000"
  "nat \<lceil>binary64 (binary64 (15 - 0) / dt)\<rceil> = 7500"
  by code_simp+

lemma length_t_train: "length t_train = 5000"
  by (simp only: t_train_def length_np_arange arange_lengths)

lemma length_t_test: "length t_test = 7500"
  by (simp only: t_test_def length_np_arange arange_lengths)

lemma nth_t_train: "i < 5000 \<Longrightarrow> t_train ! i = grid_point i"
  using nth_np_arange [of i 0 10 dt]
  by (simp only: t_train_def [symmetric] length_t_train dt_round_trip grid_point_def)

lemma nth_t_test: "i < 7500 \<Longrightarrow> t_test ! i = grid_point i"
  using nth_np_arange [of i 0 15 dt]
  by (simp only: t_test_def [symmetric] length_t_test dt_round_trip grid_point_def)

lemma grid_point_error:
  assumes "i < 7500"
  shows "\<bar>grid_point i - of_nat i * dt\<bar> \<le> 2 / 2 ^ 50"
proof -
  have i: "(of_nat i :: rat) \<le> 7499"
    using assms by (simp add: of_nat_le_iff [of i 7499, where ?'a = rat, simplified])
  have nonneg: "(0::rat) \<le> of_nat i * dt" using dt_bounds by simp
  have "of_nat i * dt \<le> 7499 * dt" using i dt_bounds by (simp add: mult_right_mono)
  also have "\<dots> < 155 / 10" using dt_bounds by simp
  finally have small: "\<bar>of_nat i * dt\<bar> < 155 / 10" using nonneg by simp
  have p50: "(1::rat) / 2 ^ 50 \<le> 1 / 2" by simp
  define y where "y = binary64 (of_nat i * dt)"
  have e1: "\<bar>y - of_nat i * dt\<bar> \<le> 1 / 2 ^ 50"
    unfolding y_def using small by (intro binary64_error_below_16) simp
  then have "\<bar>y\<bar> < 16" using small p50 by linarith
  then have e2: "\<bar>binary64 (0 + y) - y\<bar> \<le> 1 / 2 ^ 50"
    using binary64_error_below_16 [of y] by simp
  have "\<bar>binary64 (0 + y) - of_nat i * dt\<bar> \<le> 2 / 2 ^ 50"
    using e1 e2 by linarith
  then show ?thesis
    by (auto simp: grid_point_def y_def)
qed

lemma grid_point_step:
  assumes "Suc i < 7500"
  shows "grid_point i < grid_point (Suc i)"
    and "\<bar>grid_point (Suc i) - grid_point i - dt\<bar> \<le> 1 / 2 ^ 48"
proof -
  have a: "\<bar>grid_point i - of_nat i * dt\<bar> \<le> 2 / 2 ^ 50"
    using assms by (intro grid_point_error) simp
  have b: "\<bar>grid_point (Suc i) - (of_nat i * dt + dt)\<bar> \<le> 2 / 2 ^ 50"
    using grid_point_error [OF assms] by (simp add: algebra_simps)
  have p: "(2::rat) / 2 ^ 50 + 2 / 2 ^ 50 = 1 / 2 ^ 48" "(1::rat) / 2 ^ 48 < 2 / 1000"
    by simp_all
  show c: "\<bar>grid_point (Suc i) - grid_point i - dt\<bar> \<le> 1 / 2 ^ 48"
    using a b p(1) by linarith
  show "grid_point i < grid_point (Suc i)"
    using c dt_bounds(1) p(2) by linarith
qed

lemma grid_point_8_9: "grid_point 9 - grid_point 8 = dt + 1 / 2 ^ 59"
  by code_simp

text \<open>
  C2, as amended. Both time vectors are strictly increasing, and the step between
  neighbours is \<open>dt\<close> up to the rounding of double arithmetic: it differs from \<open>dt\<close> by at
  most \<open>2\<^sup>-\<^sup>4\<^sup>8\<close>. \<open>t_train\<close> has 5000 entries and \<open>t_test\<close> has 7500.
\<close>

theorem time_vectors_increasing_nearly_uniform:
  "length t_train = 5000 \<and> length t_test = 7500 \<and>
   (\<forall>i. Suc i < length t_train \<longrightarrow>
      t_train ! i < t_train ! Suc i \<and> \<bar>t_train ! Suc i - t_train ! i - dt\<bar> \<le> 1 / 2 ^ 48) \<and>
   (\<forall>i. Suc i < length t_test \<longrightarrow>
      t_test ! i < t_test ! Suc i \<and> \<bar>t_test ! Suc i - t_test ! i - dt\<bar> \<le> 1 / 2 ^ 48)"
proof (intro conjI allI impI)
  show "length t_train = 5000" by (rule length_t_train)
  show "length t_test = 7500" by (rule length_t_test)
next
  fix i assume "Suc i < length t_train"
  then have i: "Suc i < 5000" by (simp add: length_t_train)
  then have eq: "t_train ! i = grid_point i" "t_train ! Suc i = grid_point (Suc i)"
    by (simp_all add: nth_t_train)
  from i have "Suc i < 7500" by simp
  from grid_point_step [OF this]
  show "t_train ! i < t_train ! Suc i" "\<bar>t_train ! Suc i - t_train ! i - dt\<bar> \<le> 1 / 2 ^ 48"
    by (simp_all add: eq)
next
  fix i assume "Suc i < length t_test"
  then have i: "Suc i < 7500" by (simp add: length_t_test)
  then have eq: "t_test ! i = grid_point i" "t_test ! Suc i = grid_point (Suc i)"
    by (simp_all add: nth_t_test)
  from grid_point_step [OF i]
  show "t_test ! i < t_test ! Suc i" "\<bar>t_test ! Suc i - t_test ! i - dt\<bar> \<le> 1 / 2 ^ 48"
    by (simp_all add: eq)
qed

theorem time_vectors_witness:
  "Suc 8 < length t_train \<and> t_train ! 8 < t_train ! Suc 8 \<and>
   \<bar>t_train ! Suc 8 - t_train ! 8 - dt\<bar> \<le> 1 / 2 ^ 48"
proof -
  have "Suc 8 < length t_train" by (simp add: length_t_train)
  with time_vectors_increasing_nearly_uniform show ?thesis by blast
qed

text \<open>
  C2 as stated fails: the step from \<open>t_train[8]\<close> to \<open>t_train[9]\<close> is not \<open>dt\<close>, because
  \<open>9 * dt\<close> is not a double (in Python, \<^verbatim>\<open>9 * .002 - 8 * .002 == .002\<close> is \<^verbatim>\<open>False\<close>).
\<close>

theorem uniform_step_counterexample:
  "Suc 8 < length t_train \<and> t_train ! Suc 8 - t_train ! 8 \<noteq> dt"
  using grid_point_8_9 by (simp add: length_t_train nth_t_train)

section \<open>Runs of programs\<close>

named_theorems run_simps

lemma result_return [run_simps]: "result (return_prog v) lib = Inr v"
  by (simp add: result_def return_prog_def)

lemma trace_return [run_simps]: "trace (return_prog v) lib = []"
  by (simp add: trace_def return_prog_def)

lemma result_raise_prog [run_simps]: "result (raise_prog e) lib = Inl e"
  by (simp add: result_def raise_prog_def)

lemma trace_raise_prog [run_simps]: "trace (raise_prog e) lib = []"
  by (simp add: trace_def raise_prog_def)

lemma result_lib_call [run_simps]: "result (lib_call f args kws) lib = lib (Call f args kws)"
  by (simp add: result_def lib_call_def split: sum.splits)

lemma trace_lib_call [run_simps]:
  "trace (lib_call f args kws) lib =
     [(Call f args kws, case lib (Call f args kws) of Inl e \<Rightarrow> Raised e | Inr v \<Rightarrow> Returned v)]"
  by (simp add: trace_def lib_call_def split: sum.splits)

lemma map_fst_trace_lib_call: "map fst (trace (lib_call f args kws) lib) = [Call f args kws]"
  by (simp add: trace_lib_call)

lemma result_bind [run_simps]:
  "result (bind_prog m f) lib = (case result m lib of Inl e \<Rightarrow> Inl e | Inr v \<Rightarrow> result (f v) lib)"
  by (simp add: result_def bind_prog_def split: prod.splits sum.splits)

lemma trace_bind [run_simps]:
  "trace (bind_prog m f) lib =
     (case result m lib of Inl e \<Rightarrow> trace m lib | Inr v \<Rightarrow> trace m lib @ trace (f v) lib)"
  by (simp add: result_def trace_def bind_prog_def split: prod.splits sum.splits)

lemma result_then [run_simps]:
  "result (then_prog m k) lib = (case result m lib of Inl e \<Rightarrow> Inl e | Inr v \<Rightarrow> result k lib)"
  by (simp add: then_prog_def result_bind)

lemma trace_then [run_simps]:
  "trace (then_prog m k) lib =
     (case result m lib of Inl e \<Rightarrow> trace m lib | Inr v \<Rightarrow> trace m lib @ trace k lib)"
  by (simp add: then_prog_def trace_bind)

lemma list_ex_keys: "list_ex (\<lambda>k. k \<in> S) (keys d) \<longleftrightarrow> set (keys d) \<inter> S \<noteq> {}"
  by (auto simp: list_ex_iff)

lemma echo_library_call [run_simps]:
  "echo_library (Call f args kws) = Inr (TupleV [StrV f, ListV args, DictV kws])"
  by (simp add: echo_library_def)

lemmas event_simps = callee_def arguments_def keyword_def receiver_def returned_def raised_def
  is_integration_def is_model_construction_def is_search_construction_def is_fit_def is_print_def
  is_warning_filter_def

subsection \<open>Facts about every event of every run\<close>

named_theorems all_events_intros

lemma all_events_return [all_events_intros]: "all_events P (return_prog v)"
  by (simp add: all_events_def run_simps)

lemma all_events_raise [all_events_intros]: "all_events P (raise_prog e)"
  by (simp add: all_events_def run_simps)

lemma all_events_lib_call [all_events_intros]:
  "(\<And>out. P (Call f args kws, out)) \<Longrightarrow> all_events P (lib_call f args kws)"
  by (simp add: all_events_def run_simps)

lemma all_events_bind [all_events_intros]:
  "all_events P m \<Longrightarrow> (\<And>v. all_events P (f v)) \<Longrightarrow> all_events P (bind_prog m f)"
  by (auto simp: all_events_def run_simps split: sum.splits)

lemma all_events_then [all_events_intros]:
  "all_events P m \<Longrightarrow> all_events P k \<Longrightarrow> all_events P (then_prog m k)"
  by (simp add: then_prog_def all_events_bind)

lemma all_events_index [all_events_intros]: "all_events P (index_prog xs i)"
  by (simp add: index_prog_def all_events_return all_events_raise split: sum.splits)

lemma all_events_call_star [all_events_intros]:
  "(\<And>out. P (Call f args (kws @ star), out)) \<Longrightarrow> all_events P (call_star f args kws star)"
  by (simp add: call_star_def all_events_raise all_events_lib_call)

lemma all_events_weaken: "all_events P m \<Longrightarrow> (\<And>ev. P ev \<Longrightarrow> Q ev) \<Longrightarrow> all_events Q m"
  by (simp add: all_events_def)

lemma all_events_nth: "all_events P m \<Longrightarrow> k < length (trace m lib) \<Longrightarrow> P (trace m lib ! k)"
  by (metis all_events_def nth_mem)

subsection \<open>Facts about each event and the events before it\<close>

lemma each_after_Nil: "each_after Q [] = True"
  by (simp add: each_after_def)

lemma each_after_Cons: "each_after Q (e # es) = (Q [] e \<and> each_after (\<lambda>pre. Q (e # pre)) es)"
proof -
  have "(\<forall>k < Suc (length es). Q (take k (e # es)) ((e # es) ! k)) =
        (Q [] e \<and> (\<forall>k < length es. Q (e # take k es) (es ! k)))"
    by (simp add: All_less_Suc2)
  then show ?thesis by (simp add: each_after_def)
qed

lemma each_after_append:
  assumes mono: "\<And>pre pre' e. Q pre e \<Longrightarrow> Q (pre' @ pre) e"
    and xs: "each_after Q xs" and ys: "each_after Q ys"
  shows "each_after Q (xs @ ys)"
  unfolding each_after_def
proof (intro allI impI)
  fix k assume k: "k < length (xs @ ys)"
  show "Q (take k (xs @ ys)) ((xs @ ys) ! k)"
  proof (cases "k < length xs")
    case True
    then show ?thesis using xs by (simp add: each_after_def nth_append)
  next
    case False
    then have "k - length xs < length ys" using k by simp
    then have "Q (take (k - length xs) ys) (ys ! (k - length xs))"
      using ys by (simp add: each_after_def)
    from mono [OF this, of xs] show ?thesis using False by (simp add: nth_append)
  qed
qed

lemma in_order_mono: "in_order pre e \<Longrightarrow> in_order (pre' @ pre) e"
  unfolding in_order_def built_before_def reports_fit_def
  by (simp only: set_append) blast

lemma ordered_bind: "ordered m \<Longrightarrow> (\<And>v. ordered (f v)) \<Longrightarrow> ordered (bind_prog m f)"
  by (auto simp: ordered_def run_simps each_after_append in_order_mono split: sum.splits)

lemma ordered_then: "ordered m \<Longrightarrow> ordered k \<Longrightarrow> ordered (then_prog m k)"
  by (simp add: then_prog_def ordered_bind)

lemma ordered_without_handover:
  assumes "all_events (\<lambda>ev. callee ev \<in> setup_callees \<union> datagen_callees) m"
  shows "ordered m"
proof -
  have "in_order pre ev" if "callee ev \<in> setup_callees \<union> datagen_callees" for pre ev
    using that
    by (auto simp: in_order_def setup_callees_def datagen_callees_def is_search_construction_def
        is_fit_def is_print_def)
  then show ?thesis
    using all_events_nth [OF assms] by (simp add: ordered_def each_after_def)
qed

lemma split_order:
  assumes "tr = A @ B" and "\<forall>ev \<in> set A. \<not> Q ev" and "\<forall>ev \<in> set B. \<not> P ev"
    and "i < length tr" and "j < length tr" and "P (tr ! i)" and "Q (tr ! j)"
  shows "i < j"
proof -
  have "i < length A"
  proof (rule ccontr)
    assume "\<not> i < length A"
    then have "tr ! i \<in> set B" using assms(1,4) by (simp add: nth_append)
    then show False using assms(3,6) by blast
  qed
  moreover have "\<not> j < length A"
  proof
    assume "j < length A"
    then have "tr ! j \<in> set A" using assms(1) by (simp add: nth_append)
    then show False using assms(2,7) by blast
  qed
  ultimately show ?thesis by simp
qed

subsection \<open>Exceptions end a run\<close>

lemma propagates_return: "propagates (return_prog v)"
  by (simp add: propagates_def run_simps)

lemma propagates_raise: "propagates (raise_prog e)"
  by (simp add: propagates_def run_simps)

lemma propagates_lib_call: "propagates (lib_call f args kws)"
  by (auto simp: propagates_def run_simps raised_def split: sum.splits)

lemma propagates_bind:
  assumes m: "propagates m" and f: "\<And>v. propagates (f v)"
  shows "propagates (bind_prog m f)"
  unfolding propagates_def
proof (intro allI impI)
  fix lib k e
  assume a: "k < length (trace (bind_prog m f) lib) \<and> raised e (trace (bind_prog m f) lib ! k)"
  show "Suc k = length (trace (bind_prog m f) lib) \<and> result (bind_prog m f) lib = Inl e"
  proof (cases "result m lib")
    case (Inl e')
    then show ?thesis using a m by (simp add: propagates_def run_simps)
  next
    case (Inr v)
    have early: "\<not> k < length (trace m lib)"
    proof
      assume "k < length (trace m lib)"
      then have "result m lib = Inl e"
        using a m Inr by (simp add: propagates_def run_simps nth_append)
      then show False using Inr by simp
    qed
    then have "k - length (trace m lib) < length (trace (f v) lib)"
      and "raised e (trace (f v) lib ! (k - length (trace m lib)))"
      using a Inr by (auto simp: run_simps nth_append)
    then have "Suc (k - length (trace m lib)) = length (trace (f v) lib) \<and> result (f v) lib = Inl e"
      using f [of v] by (simp add: propagates_def)
    then show ?thesis using early Inr by (auto simp: run_simps)
  qed
qed

lemma propagates_then: "propagates m \<Longrightarrow> propagates k \<Longrightarrow> propagates (then_prog m k)"
  by (simp add: then_prog_def propagates_bind)

lemma propagates_index: "propagates (index_prog xs i)"
  by (simp add: index_prog_def propagates_return propagates_raise split: sum.splits)

lemma propagates_call_star: "propagates (call_star f args kws star)"
  by (simp add: call_star_def propagates_raise propagates_lib_call)

lemmas propagates_intros = propagates_bind propagates_then propagates_lib_call propagates_return
  propagates_index propagates_call_star

lemma fails_in_library_return: "fails_in_library (return_prog v)"
  by (simp add: fails_in_library_def run_simps)

lemma fails_in_library_lib_call: "fails_in_library (lib_call f args kws)"
  by (auto simp: fails_in_library_def run_simps raised_def split: sum.splits)

lemma fails_in_library_bind:
  assumes m: "fails_in_library m" and f: "\<And>v lib. result m lib = Inr v \<Longrightarrow> fails_in_library (f v)"
  shows "fails_in_library (bind_prog m f)"
  unfolding fails_in_library_def
proof (intro allI impI)
  fix lib e
  assume a: "result (bind_prog m f) lib = Inl e"
  show "trace (bind_prog m f) lib \<noteq> [] \<and> raised e (last (trace (bind_prog m f) lib))"
  proof (cases "result m lib")
    case (Inl e')
    then show ?thesis using a m by (simp add: fails_in_library_def run_simps)
  next
    case (Inr v)
    then have "result (f v) lib = Inl e" using a by (simp add: run_simps)
    then have "trace (f v) lib \<noteq> [] \<and> raised e (last (trace (f v) lib))"
      using f [OF Inr] by (simp add: fails_in_library_def)
    then show ?thesis using Inr by (simp add: run_simps)
  qed
qed

lemma fails_in_library_then:
  "fails_in_library m \<Longrightarrow> fails_in_library k \<Longrightarrow> fails_in_library (then_prog m k)"
  by (simp add: then_prog_def fails_in_library_bind)

lemmas fails_in_library_intros = fails_in_library_then fails_in_library_lib_call
  fails_in_library_return

subsection \<open>Runs that complete\<close>

lemma completes_bind:
  "completes (bind_prog m f) lib \<longleftrightarrow> (\<exists>v. result m lib = Inr v \<and> completes (f v) lib)"
  by (simp add: completes_def run_simps split: sum.splits)

lemma completes_then: "completes (then_prog m k) lib \<longleftrightarrow> completes m lib \<and> completes k lib"
  by (auto simp: completes_def run_simps split: sum.splits)

lemma makes_calls_return: "makes_calls (return_prog v) []"
  by (simp add: makes_calls_def run_simps)

lemma makes_calls_raise: "makes_calls (raise_prog e) fs"
  by (simp add: makes_calls_def completes_def run_simps)

lemma makes_calls_lib_call: "makes_calls (lib_call f args kws) [f]"
  by (simp add: makes_calls_def run_simps callee_def)

lemma makes_calls_bind:
  "makes_calls m fs \<Longrightarrow> (\<And>v. makes_calls (g v) gs) \<Longrightarrow> makes_calls (bind_prog m g) (fs @ gs)"
  by (auto simp: makes_calls_def completes_def run_simps split: sum.splits)

lemma makes_calls_then:
  "makes_calls m fs \<Longrightarrow> makes_calls k gs \<Longrightarrow> makes_calls (then_prog m k) (fs @ gs)"
  by (simp add: then_prog_def makes_calls_bind)

lemma makes_calls_index: "makes_calls (index_prog xs i) []"
  by (simp add: index_prog_def makes_calls_return makes_calls_raise split: sum.splits)

lemma makes_calls_call_star: "makes_calls (call_star f args kws star) [f]"
  by (simp add: call_star_def makes_calls_raise makes_calls_lib_call)

lemmas makes_calls_intros = makes_calls_bind makes_calls_then makes_calls_lib_call
  makes_calls_return makes_calls_index makes_calls_call_star

lemma t_defaults_passed_append:
  "t_defaults_passed (xs @ ys) = t_defaults_passed xs @ t_defaults_passed ys"
  by (simp add: t_defaults_passed_def)

lemma t_defaults_passed_none:
  assumes "all_events (\<lambda>ev. callee ev \<in> setup_callees \<union> datagen_callees) m"
  shows "t_defaults_passed (trace m lib) = []"
proof -
  have "\<not> is_model_construction ev" if "ev \<in> set (trace m lib)" for ev
  proof -
    have "callee ev \<in> setup_callees \<union> datagen_callees"
      using assms that unfolding all_events_def by blast
    then show ?thesis
      by (auto simp: is_model_construction_def setup_callees_def datagen_callees_def)
  qed
  then show ?thesis by (simp add: t_defaults_passed_def)
qed

lemma printed_append: "printed (xs @ ys) = printed xs @ printed ys"
  by (simp add: printed_def)

lemma printed_none:
  assumes "all_events (\<lambda>ev. callee ev \<in> setup_callees \<union> datagen_callees) m"
  shows "printed (trace m lib) = []"
proof -
  have "\<not> is_print ev" if "ev \<in> set (trace m lib)" for ev
  proof -
    have "callee ev \<in> setup_callees \<union> datagen_callees"
      using assms that unfolding all_events_def by blast
    then show ?thesis
      by (auto simp: is_print_def setup_callees_def datagen_callees_def)
  qed
  then show ?thesis by (simp add: printed_def)
qed

section \<open>The wrapper class\<close>

lemma SINDyCV_fit_fresh:
  assumes "''x_dot'' \<notin> set (keys kwargs)"
  shows "SINDyCV_fit self x y kwargs = lib_call ''SINDy.fit'' [self, x] ((''x_dot'', y) # kwargs)"
  using assms by (simp add: SINDyCV_fit_def call_star_def list_ex_iff keys_def)

lemma SINDyCV_fit_repeated:
  assumes "''x_dot'' \<in> set (keys kwargs)"
  shows "SINDyCV_fit self x y kwargs = raise_prog TypeError"
  using assms by (simp add: SINDyCV_fit_def call_star_def list_ex_iff keys_def)

lemma SINDyCV_score_fresh:
  assumes "set (keys metric_kws) \<inter> score_named = {}" and "''x_dot'' \<notin> set (keys metric_kws)"
  shows "SINDyCV_score self x y t u mt metric metric_kws =
     lib_call ''SINDy.score'' [self, x]
       ([(''x_dot'', y), (''t'', given_or NoneV t), (''u'', given_or NoneV u),
         (''multiple_trajectories'', given_or (BoolV False) mt),
         (''metric'', given_or (NameV ''r2_score'') metric)] @ metric_kws)"
proof -
  have "\<not> list_ex (\<lambda>k. k \<in> set (keys [(''x_dot'', y), (''t'', given_or NoneV t), (''u'', given_or NoneV u),
         (''multiple_trajectories'', given_or (BoolV False) mt),
         (''metric'', given_or (NameV ''r2_score'') metric)])) (keys metric_kws)"
    using assms unfolding list_ex_keys by (auto simp: keys_def score_named_def)
  then show ?thesis
    by (simp add: SINDyCV_score_def call_star_def)
qed

lemma SINDyCV_score_repeated:
  assumes "''x_dot'' \<in> set (keys metric_kws)"
  shows "SINDyCV_score self x y t u mt metric metric_kws = raise_prog TypeError"
  using assms by (auto simp: SINDyCV_score_def call_star_def list_ex_iff keys_def)

text \<open>
  C3. The wrapper does nothing of its own. For every receiver, \<open>x\<close>, \<open>y\<close> and keyword
  dictionary, \<^verbatim>\<open>SINDyCV.fit(x, y, **kwargs)\<close> makes exactly one library call, the parent's
  \<^verbatim>\<open>SINDy.fit(x, x_dot=y, **kwargs)\<close>, and returns (or raises) what that call returns (or
  raises); \<^verbatim>\<open>SINDyCV.score\<close> makes exactly one call of the parent's \<^verbatim>\<open>SINDy.score\<close> with
  \<^verbatim>\<open>x_dot=y\<close>, the same \<open>t\<close>, \<open>u\<close>, \<open>multiple_trajectories\<close> and extra keywords, and
  \<open>metric\<close> set to \<^verbatim>\<open>r2_score\<close> when the caller gave none. The one input on which the parent
  is not entered is a keyword dictionary that itself names \<^verbatim>\<open>x_dot\<close>: there the Python
  expression \<^verbatim>\<open>SINDy.fit(x, x_dot=y, **kwargs)\<close> is a \<^verbatim>\<open>TypeError\<close> (a repeated keyword) and
  the wrapper, whose body is that expression, raises it without any library call.
  (The extra keywords of \<^verbatim>\<open>score\<close> never hold \<open>t\<close>, \<open>u\<close>, \<open>multiple_trajectories\<close> or
  \<open>metric\<close>: Python binds those to the named parameters.)
\<close>

theorem SINDyCV_delegates_to_SINDy:
  "(''x_dot'' \<notin> set (keys kwargs) \<longrightarrow>
      result (SINDyCV_fit self x y kwargs) lib = delegated_fit lib self x y kwargs \<and>
      map fst (trace (SINDyCV_fit self x y kwargs) lib) =
        [Call ''SINDy.fit'' [self, x] ((''x_dot'', y) # kwargs)])
   \<and> (''x_dot'' \<in> set (keys kwargs) \<longrightarrow>
      result (SINDyCV_fit self x y kwargs) lib = Inl TypeError \<and>
      trace (SINDyCV_fit self x y kwargs) lib = [])
   \<and> (set (keys metric_kws) \<inter> score_named = {} \<and> ''x_dot'' \<notin> set (keys metric_kws) \<longrightarrow>
      result (SINDyCV_score self x y t u mt metric metric_kws) lib =
        delegated_score lib self x y (given_or NoneV t) (given_or NoneV u)
          (given_or (BoolV False) mt) metric metric_kws \<and>
      map fst (trace (SINDyCV_score self x y t u mt metric metric_kws) lib) =
        [Call ''SINDy.score'' [self, x]
          ([(''x_dot'', y), (''t'', given_or NoneV t), (''u'', given_or NoneV u),
            (''multiple_trajectories'', given_or (BoolV False) mt),
            (''metric'', (case metric of None \<Rightarrow> NameV ''r2_score'' | Some m \<Rightarrow> m))] @ metric_kws)])
   \<and> (''x_dot'' \<in> set (keys metric_kws) \<longrightarrow>
      result (SINDyCV_score self x y t u mt metric metric_kws) lib = Inl TypeError \<and>
      trace (SINDyCV_score self x y t u mt metric metric_kws) lib = [])"
proof (intro conjI impI)
  assume fresh: "''x_dot'' \<notin> set (keys kwargs)"
  show "result (SINDyCV_fit self x y kwargs) lib = delegated_fit lib self x y kwargs"
    by (simp add: SINDyCV_fit_fresh [OF fresh] result_lib_call delegated_fit_def SINDy_fit_def)
  show "map fst (trace (SINDyCV_fit self x y kwargs) lib) =
        [Call ''SINDy.fit'' [self, x] ((''x_dot'', y) # kwargs)]"
    by (simp add: SINDyCV_fit_fresh [OF fresh] map_fst_trace_lib_call)
next
  assume rep: "''x_dot'' \<in> set (keys kwargs)"
  show "result (SINDyCV_fit self x y kwargs) lib = Inl TypeError"
    by (simp add: SINDyCV_fit_repeated [OF rep] result_raise_prog)
  show "trace (SINDyCV_fit self x y kwargs) lib = []"
    by (simp add: SINDyCV_fit_repeated [OF rep] trace_raise_prog)
next
  assume "set (keys metric_kws) \<inter> score_named = {} \<and> ''x_dot'' \<notin> set (keys metric_kws)"
  then have a: "set (keys metric_kws) \<inter> score_named = {}" and b: "''x_dot'' \<notin> set (keys metric_kws)"
    by simp_all
  show "result (SINDyCV_score self x y t u mt metric metric_kws) lib =
        delegated_score lib self x y (given_or NoneV t) (given_or NoneV u)
          (given_or (BoolV False) mt) metric metric_kws"
    by (simp add: SINDyCV_score_fresh [OF a b] result_lib_call delegated_score_def
        SINDy_score_def given_or_def)
  show "map fst (trace (SINDyCV_score self x y t u mt metric metric_kws) lib) =
        [Call ''SINDy.score'' [self, x]
          ([(''x_dot'', y), (''t'', given_or NoneV t), (''u'', given_or NoneV u),
            (''multiple_trajectories'', given_or (BoolV False) mt),
            (''metric'', (case metric of None \<Rightarrow> NameV ''r2_score'' | Some m \<Rightarrow> m))] @ metric_kws)]"
    by (simp add: SINDyCV_score_fresh [OF a b] map_fst_trace_lib_call given_or_def)
next
  assume rep: "''x_dot'' \<in> set (keys metric_kws)"
  show "result (SINDyCV_score self x y t u mt metric metric_kws) lib = Inl TypeError"
    by (simp add: SINDyCV_score_repeated [OF rep] result_raise_prog)
  show "trace (SINDyCV_score self x y t u mt metric metric_kws) lib = []"
    by (simp add: SINDyCV_score_repeated [OF rep] trace_raise_prog)
qed

theorem SINDyCV_delegates_witness:
  "result (SINDyCV_fit (ObjV 0) (ObjV 1) (ObjV 2) [(''t'', FloatV 1)]) echo_library =
     Inr (TupleV [StrV ''SINDy.fit'', ListV [ObjV 0, ObjV 1],
                  DictV [(''x_dot'', ObjV 2), (''t'', FloatV 1)]])
   \<and> result (SINDyCV_fit (ObjV 0) (ObjV 1) (ObjV 2) [(''x_dot'', ObjV 3)]) echo_library = Inl TypeError
   \<and> result (SINDyCV_score (ObjV 0) (ObjV 1) (ObjV 2) None None None None []) echo_library =
     Inr (TupleV [StrV ''SINDy.score'', ListV [ObjV 0, ObjV 1],
                  DictV [(''x_dot'', ObjV 2), (''t'', NoneV), (''u'', NoneV),
                         (''multiple_trajectories'', BoolV False),
                         (''metric'', NameV ''r2_score'')]])
   \<and> result (SINDyCV_score (ObjV 0) (ObjV 1) (ObjV 2) None None None None [(''x_dot'', ObjV 3)])
         echo_library = Inl TypeError"
  using
    SINDyCV_delegates_to_SINDy [of "[(''t'', FloatV 1)]" "ObjV 0" "ObjV 1" "ObjV 2" echo_library
      "[]" None None None None]
    SINDyCV_delegates_to_SINDy [of "[(''x_dot'', ObjV 3)]" "ObjV 0" "ObjV 1" "ObjV 2" echo_library
      "[(''x_dot'', ObjV 3)]" None None None None]
  by (simp add: keys_def score_named_def delegated_fit_def delegated_score_def SINDy_fit_def
      SINDy_score_def echo_library_def given_or_def)

section \<open>The cells, one by one\<close>

lemma index_t_train:
  "index_prog t_train 0 = return_prog (FloatV (t_train ! 0))"
  "index_prog t_train (- 1) = return_prog (FloatV (t_train ! 4999))"
  by (simp_all add: index_prog_def py_index_def length_t_train)

lemma index_t_test:
  "index_prog t_test 0 = return_prog (FloatV (t_test ! 0))"
  "index_prog t_test (- 1) = return_prog (FloatV (t_test ! 7499))"
  by (simp_all add: index_prog_def py_index_def length_t_test)

lemma keys_integrator_keywords: "keys integrator_keywords = [''rtol'', ''method'', ''atol'']"
  by (simp add: integrator_keywords_def keys_def)

lemma solve_ivp_call:
  "call_star ''solve_ivp'' args [(''t_eval'', v)] integrator_keywords =
     lib_call ''solve_ivp'' args ((''t_eval'', v) # integrator_keywords)"
  by (simp add: call_star_def keys_integrator_keywords) (simp add: keys_def)

lemma result_cell1: "result cell1 lib = Inr ik \<Longrightarrow> ik = integrator_keywords"
  by (simp add: cell1_def run_simps py_import_def split: sum.splits)

lemmas cell_defs = cell3_def cell4_def cell5_def cell6_def cell7_def cell8_def
  fit_and_report_def SINDyCV_init_def py_import_def

subsection \<open>Which calls each cell makes\<close>

lemma callee_simp: "callee (Call f args kws, out) = f"
  by (simp add: callee_def)

lemma cell1_callees: "all_events (\<lambda>ev. callee ev \<in> setup_callees) cell1"
  unfolding cell1_def py_import_def
  by (intro all_events_intros) (simp_all add: callee_simp setup_callees_def)

lemma cell2_train_callees: "all_events (\<lambda>ev. callee ev \<in> datagen_callees) (cell2_train ik)"
  unfolding cell2_train_def
  by (intro all_events_intros) (simp_all add: callee_simp datagen_callees_def)

lemma cell2_test_callees: "all_events (\<lambda>ev. callee ev \<in> datagen_callees) (cell2_test x0 ik)"
  unfolding cell2_test_def
  by (intro all_events_intros) (simp_all add: callee_simp datagen_callees_def)

lemma cells_3_to_8_callees: "all_events (\<lambda>ev. callee ev \<in> model_callees) (cells_3_to_8 x)"
  unfolding cells_3_to_8_def cell_defs
  by (intro all_events_intros) (simp_all add: callee_simp model_callees_def)

lemma cell1_early: "all_events (\<lambda>ev. callee ev \<in> setup_callees \<union> datagen_callees) cell1"
  by (rule all_events_weaken [OF cell1_callees]) simp

lemma cell2_train_early:
  "all_events (\<lambda>ev. callee ev \<in> setup_callees \<union> datagen_callees) (cell2_train ik)"
  by (rule all_events_weaken [OF cell2_train_callees]) simp

lemma cell2_test_early:
  "all_events (\<lambda>ev. callee ev \<in> setup_callees \<union> datagen_callees) (cell2_test x0 ik)"
  by (rule all_events_weaken [OF cell2_test_callees]) simp

lemmas early_callees = cell1_early cell2_train_early cell2_test_early

lemma after_cell1_callees:
  "all_events (\<lambda>ev. callee ev \<in> datagen_callees \<union> model_callees)
     (bind_prog (cell2_train ik) (\<lambda>x_train. then_prog (cell2_test x0 ik) (cells_3_to_8 x_train)))"
proof (intro all_events_bind all_events_then)
  show "all_events (\<lambda>ev. callee ev \<in> datagen_callees \<union> model_callees) (cell2_train ik)"
    by (rule all_events_weaken [OF cell2_train_callees]) simp
  fix x
  show "all_events (\<lambda>ev. callee ev \<in> datagen_callees \<union> model_callees) (cell2_test x0 ik)"
    by (rule all_events_weaken [OF cell2_test_callees]) simp
  show "all_events (\<lambda>ev. callee ev \<in> datagen_callees \<union> model_callees) (cells_3_to_8 x)"
    by (rule all_events_weaken [OF cells_3_to_8_callees]) simp
qed

subsection \<open>The t_default each construction passes\<close>

lemma cells_3_to_8_t_default: "all_events passes_t_default (cells_3_to_8 x)"
  unfolding cells_3_to_8_def cell_defs
  by (intro all_events_intros)
    (simp_all add: passes_t_default_def callee_def keyword_def SINDyCV_init_defaults_def)

lemma early_t_default:
  assumes "all_events (\<lambda>ev. callee ev \<in> setup_callees \<union> datagen_callees) m"
  shows "all_events passes_t_default m"
  using assms
  by (rule all_events_weaken)
    (auto simp: passes_t_default_def setup_callees_def datagen_callees_def)

lemmas count_simps = run_simps t_defaults_passed_def completes_def event_simps
  SINDyCV_init_defaults_def

lemma cell3_t_defaults:
  "completes (cell3 x) lib \<Longrightarrow> t_defaults_passed (trace (cell3 x) lib) = [Some (FloatV dt)]"
  by (simp add: cell_defs count_simps split: sum.splits)

lemma cell4_t_defaults:
  "completes (cell4 x) lib \<Longrightarrow> t_defaults_passed (trace (cell4 x) lib) = [Some (FloatV dt)]"
  by (simp add: cell_defs count_simps split: sum.splits)

lemma cell5_t_defaults: "t_defaults_passed (trace cell5 lib) = []"
  by (simp add: cell_defs count_simps split: sum.splits)

lemma cell6_t_defaults:
  "completes (cell6 x) lib \<Longrightarrow> t_defaults_passed (trace (cell6 x) lib) = [Some (IntV 1)]"
  by (simp add: cell_defs count_simps split: sum.splits)

lemma cell7_t_defaults:
  "completes (cell7 x) lib \<Longrightarrow> t_defaults_passed (trace (cell7 x) lib) = [Some (FloatV dt)]"
  by (simp add: cell_defs count_simps split: sum.splits)

lemma cell8_t_defaults:
  "completes (cell8 x) lib \<Longrightarrow> t_defaults_passed (trace (cell8 x) lib) = [Some (FloatV dt)]"
  by (simp add: cell_defs count_simps split: sum.splits)

lemma trace_then_completes:
  "completes (then_prog m k) lib \<Longrightarrow> trace (then_prog m k) lib = trace m lib @ trace k lib"
  by (simp add: completes_def run_simps split: sum.splits)

lemma cells_3_to_8_t_defaults:
  assumes "completes (cells_3_to_8 x) lib"
  shows "t_defaults_passed (trace (cells_3_to_8 x) lib) =
     [Some (FloatV dt), Some (FloatV dt), Some (IntV 1), Some (FloatV dt), Some (FloatV dt)]"
proof -
  have c: "completes (cell3 x) lib" "completes (cell4 x) lib" "completes (cell6 x) lib"
    "completes (cell7 x) lib" "completes (cell8 x) lib"
    and t: "trace (cells_3_to_8 x) lib =
      trace (cell3 x) lib @ trace (cell4 x) lib @ trace cell5 lib @ trace (cell6 x) lib @
      trace (cell7 x) lib @ trace (cell8 x) lib"
    using assms
    by (simp_all add: cells_3_to_8_def completes_then trace_then_completes)
  show ?thesis
    by (simp add: t t_defaults_passed_append cell3_t_defaults cell4_t_defaults cell5_t_defaults
        cell6_t_defaults cell7_t_defaults cell8_t_defaults c)
qed

subsection \<open>The calls of a run that completes\<close>

lemma notebook_makes_calls: "makes_calls (notebook_with x0) notebook_operations"
proof -
  have "makes_calls (notebook_with x0)
     (([''import''] @ [''import''] @ [''import''] @ [''import''] @ [''import''] @
       [''warnings.filterwarnings''] @ [''warnings.filterwarnings''] @ []) @
      ([] @ [] @ [''solve_ivp''] @ [''.y''] @ [''.T'']) @
      ([] @ [] @ [''np.array''] @ [''solve_ivp''] @ [''.y''] @ [''.T'']) @
      ([''import''] @ [''import''] @ [''ps.SINDy''] @ [''ps.PolynomialLibrary''] @
       [''ps.FourierLibrary''] @ [''TimeSeriesSplit''] @ [''GridSearchCV''] @
       [''.fit''] @ [''.best_params_''] @ [''print''] @ [''.best_estimator_''] @ [''.print'']) @
      ([''ps.SINDyDerivative''] @ [''ps.SINDy''] @ [''TimeSeriesSplit''] @ [''GridSearchCV''] @
       [''.fit''] @ [''.best_params_''] @ [''print''] @ [''.best_estimator_''] @ [''.print'']) @
      [''import''] @
      ([''import''] @ [''SINDy.__init__''] @ [''.differentiate''] @ [''ShuffleSplit''] @
       [''GridSearchCV''] @
       [''.fit''] @ [''.best_params_''] @ [''print''] @ [''.best_estimator_''] @ [''.print'']) @
      ([''import''] @ [''ElasticNet''] @ [''ps.SINDy''] @ [''.fit''] @ [''.print'']) @
      ([''import''] @ [''OrthogonalMatchingPursuit''] @ [''ps.SINDy''] @ [''.fit''] @ [''.print'']))"
    unfolding notebook_with_def cell1_def cell2_train_def cell2_test_def cells_3_to_8_def cell_defs
    by (intro makes_calls_intros)
  then show ?thesis
    by (simp add: notebook_operations_def report_operations_def)
qed

subsection \<open>Hand-over and printing in each cell\<close>

lemmas order_simps = run_simps each_after_Nil each_after_Cons in_order_def built_before_def
  reports_fit_def event_simps

lemma ordered_cell3: "ordered (cell3 x)"
  unfolding ordered_def by (simp add: cell_defs order_simps split: sum.splits)

lemma ordered_cell4: "ordered (cell4 x)"
  unfolding ordered_def by (simp add: cell_defs order_simps split: sum.splits)

lemma ordered_cell5: "ordered cell5"
  unfolding ordered_def by (simp add: cell_defs order_simps split: sum.splits)

lemma ordered_cell6: "ordered (cell6 x)"
  unfolding ordered_def by (simp add: cell_defs order_simps split: sum.splits)

lemma ordered_cell7: "ordered (cell7 x)"
  unfolding ordered_def by (simp add: cell_defs order_simps split: sum.splits)

lemma ordered_cell8: "ordered (cell8 x)"
  unfolding ordered_def by (simp add: cell_defs order_simps split: sum.splits)

lemma ordered_cells_3_to_8: "ordered (cells_3_to_8 x)"
  unfolding cells_3_to_8_def
  by (intro ordered_then ordered_cell3 ordered_cell4 ordered_cell5 ordered_cell6 ordered_cell7
      ordered_cell8)

lemma ordered_notebook_with: "ordered (notebook_with x0)"
  unfolding notebook_with_def
  by (intro ordered_bind ordered_then ordered_cells_3_to_8 ordered_without_handover early_callees)

subsection \<open>Exceptions in each cell\<close>

lemma propagates_cells_3_to_8: "propagates (cells_3_to_8 x)"
  unfolding cells_3_to_8_def cell_defs by (intro propagates_intros)

lemma propagates_notebook_with: "propagates (notebook_with x0)"
  unfolding notebook_with_def cell1_def cell2_train_def cell2_test_def py_import_def
  by (intro propagates_intros propagates_cells_3_to_8)

lemma fails_in_library_cell1: "fails_in_library cell1"
  unfolding cell1_def py_import_def by (intro fails_in_library_intros)

lemma fails_in_library_cell2_train: "fails_in_library (cell2_train integrator_keywords)"
  unfolding cell2_train_def index_t_train solve_ivp_call
  by (intro fails_in_library_bind fails_in_library_intros)

lemma fails_in_library_cell2_test: "fails_in_library (cell2_test x0 integrator_keywords)"
  unfolding cell2_test_def index_t_test solve_ivp_call
  by (intro fails_in_library_bind fails_in_library_intros)

lemma fails_in_library_cells_3_to_8: "fails_in_library (cells_3_to_8 x)"
  unfolding cells_3_to_8_def cell_defs
  by (intro fails_in_library_bind fails_in_library_intros)

lemma fails_in_library_notebook_with: "fails_in_library (notebook_with x0)"
  unfolding notebook_with_def
proof (intro fails_in_library_bind fails_in_library_then fails_in_library_cell1)
  fix ik lib assume "result cell1 lib = Inr ik"
  then have ik: "ik = integrator_keywords" by (rule result_cell1)
  show "fails_in_library (cell2_train ik)"
    unfolding ik by (rule fails_in_library_cell2_train)
  fix x
  show "fails_in_library (cell2_test x0 ik)"
    unfolding ik by (rule fails_in_library_cell2_test)
  show "fails_in_library (cells_3_to_8 x)"
    by (rule fails_in_library_cells_3_to_8)
qed

subsection \<open>The warning filters of cell 1\<close>

lemma cell1_trace_length: "length (trace cell1 lib) \<le> 7"
  by (simp add: cell1_def py_import_def run_simps split: sum.splits)

lemma cell1_warning_filters:
  "\<exists>n \<le> 2. map fst (filter is_warning_filter (trace cell1 lib)) = take n warning_filters"
proof -
  have "map fst (filter is_warning_filter (trace cell1 lib)) = take 0 warning_filters \<or>
      map fst (filter is_warning_filter (trace cell1 lib)) = take 1 warning_filters \<or>
      map fst (filter is_warning_filter (trace cell1 lib)) = take 2 warning_filters"
    by (simp add: cell1_def py_import_def run_simps event_simps warning_filters_def
        split: sum.splits)
  then show ?thesis
    by (metis zero_le one_le_numeral order_refl)
qed

lemma cell1_warning_filters_complete:
  "completes cell1 lib \<Longrightarrow>
     map fst (filter is_warning_filter (trace cell1 lib)) = warning_filters"
  by (simp add: cell1_def py_import_def run_simps completes_def event_simps warning_filters_def
      split: sum.splits)

subsection \<open>The trace of the notebook, cell by cell\<close>

text \<open>
  The trace of a run is the trace of cell 1 followed by events that are not of cell 1, and
  it is a trace of cells 1 and 2 followed by a trace of cells 3 to 8.
\<close>

lemma trace_notebook_with_cell1:
  "\<exists>B. trace (notebook_with x0) lib = trace cell1 lib @ B \<and>
     (\<forall>ev \<in> set B. callee ev \<in> datagen_callees \<union> model_callees)"
proof (cases "result cell1 lib")
  case (Inl e)
  then have "trace (notebook_with x0) lib = trace cell1 lib @ []"
    by (simp add: notebook_with_def run_simps)
  then show ?thesis by (metis empty_iff list.set(1))
next
  case (Inr ik)
  then have "trace (notebook_with x0) lib = trace cell1 lib @
      trace (bind_prog (cell2_train ik) (\<lambda>x_train.
               then_prog (cell2_test x0 ik) (cells_3_to_8 x_train))) lib"
    by (simp add: notebook_with_def trace_bind)
  then show ?thesis
    using after_cell1_callees [of ik x0, unfolded all_events_def] by blast
qed

lemma trace_notebook_with_split:
  "\<exists>A B. trace (notebook_with x0) lib = A @ B \<and>
     (\<forall>ev \<in> set A. callee ev \<in> setup_callees \<union> datagen_callees) \<and>
     (\<forall>ev \<in> set B. callee ev \<in> model_callees)"
proof -
  note early = early_callees [unfolded all_events_def, rule_format]
  note late = cells_3_to_8_callees [unfolded all_events_def, rule_format]
  show ?thesis
  proof (cases "result cell1 lib")
    case (Inl e)
    then have "trace (notebook_with x0) lib = trace cell1 lib @ []"
      by (simp add: notebook_with_def run_simps)
    then show ?thesis using early(1) by (metis empty_iff list.set(1))
  next
    case ik: (Inr ik)
    show ?thesis
    proof (cases "result (cell2_train ik) lib")
      case (Inl e)
      then have "trace (notebook_with x0) lib = (trace cell1 lib @ trace (cell2_train ik) lib) @ []"
        using ik by (simp add: notebook_with_def run_simps)
      moreover have "\<forall>ev \<in> set (trace cell1 lib @ trace (cell2_train ik) lib).
          callee ev \<in> setup_callees \<union> datagen_callees"
        using early unfolding set_append by blast
      ultimately show ?thesis by (metis empty_iff list.set(1))
    next
      case x: (Inr x)
      have A: "\<forall>ev \<in> set (trace cell1 lib @ trace (cell2_train ik) lib @ trace (cell2_test x0 ik) lib).
          callee ev \<in> setup_callees \<union> datagen_callees"
        using early unfolding set_append by blast
      show ?thesis
      proof (cases "result (cell2_test x0 ik) lib")
        case (Inl e)
        then have "trace (notebook_with x0) lib =
            (trace cell1 lib @ trace (cell2_train ik) lib @ trace (cell2_test x0 ik) lib) @ []"
          using ik x by (simp add: notebook_with_def run_simps)
        then show ?thesis using A by (metis empty_iff list.set(1))
      next
        case (Inr w)
        then have "trace (notebook_with x0) lib =
            (trace cell1 lib @ trace (cell2_train ik) lib @ trace (cell2_test x0 ik) lib)
            @ trace (cells_3_to_8 x) lib"
          using ik x by (simp add: notebook_with_def run_simps)
        then show ?thesis using A late by blast
      qed
    qed
  qed
qed

section \<open>The notebook as a whole\<close>

lemma trace_bind_returned:
  "result m lib = Inr v \<Longrightarrow> trace (bind_prog m f) lib = trace m lib @ trace (f v) lib"
  by (simp add: trace_bind)

lemma trace_then_returned:
  "result m lib = Inr v \<Longrightarrow> trace (then_prog m k) lib = trace m lib @ trace k lib"
  by (simp add: trace_then)

lemma notebook_all_t_default: "all_events passes_t_default (notebook_with x0)"
  unfolding notebook_with_def
  by (intro all_events_bind all_events_then early_t_default early_callees cells_3_to_8_t_default)

lemma notebook_t_defaults:
  assumes "completes (notebook_with x0) lib"
  shows "t_defaults_passed (trace (notebook_with x0) lib) =
     [Some (FloatV dt), Some (FloatV dt), Some (IntV 1), Some (FloatV dt), Some (FloatV dt)]"
proof -
  from assms obtain ik x where ik: "result cell1 lib = Inr ik"
    and x: "result (cell2_train ik) lib = Inr x"
    and t: "completes (cell2_test x0 ik) lib" and c: "completes (cells_3_to_8 x) lib"
    by (auto simp: notebook_with_def completes_bind completes_then)
  from t obtain w where w: "result (cell2_test x0 ik) lib = Inr w"
    by (auto simp: completes_def split: sum.splits)
  have "trace (notebook_with x0) lib =
      trace cell1 lib @ trace (cell2_train ik) lib @ trace (cell2_test x0 ik) lib @
      trace (cells_3_to_8 x) lib"
    by (simp add: notebook_with_def trace_bind_returned [OF ik] trace_bind_returned [OF x]
        trace_then_returned [OF w])
  then show ?thesis
    by (simp add: t_defaults_passed_append t_defaults_passed_none [OF cell1_early]
        t_defaults_passed_none [OF cell2_train_early] t_defaults_passed_none [OF cell2_test_early]
        cells_3_to_8_t_defaults [OF c])
qed

lemma notebook_with_vs_without:
  assumes "completes (cell2_test x0 integrator_keywords) lib"
  shows "result (notebook_with x0) lib = result notebook_without_test lib"
    and "printed (trace (notebook_with x0) lib) = printed (trace notebook_without_test lib)"
proof -
  have "result (notebook_with x0) lib = result notebook_without_test lib \<and>
      printed (trace (notebook_with x0) lib) = printed (trace notebook_without_test lib)"
  proof (cases "result cell1 lib")
    case (Inl e)
    then show ?thesis by (simp add: notebook_with_def notebook_without_test_def run_simps)
  next
    case (Inr ik)
    then have ik: "ik = integrator_keywords" by (rule result_cell1)
    show ?thesis
    proof (cases "result (cell2_train ik) lib")
      case (Inl e)
      then show ?thesis
        using Inr by (simp add: notebook_with_def notebook_without_test_def run_simps)
    next
      case x: (Inr x)
      from assms obtain w where w: "result (cell2_test x0 ik) lib = Inr w"
        by (auto simp: ik completes_def split: sum.splits)
      show ?thesis
        using Inr x w
        by (simp add: notebook_with_def notebook_without_test_def run_simps printed_append
            printed_none [OF cell2_test_early])
    qed
  qed
  then show "result (notebook_with x0) lib = result notebook_without_test lib"
    and "printed (trace (notebook_with x0) lib) = printed (trace notebook_without_test lib)"
    by simp_all
qed

lemma notebook_operations_of_run:
  "completes (notebook_with x0) lib \<Longrightarrow>
     map callee (trace (notebook_with x0) lib) = notebook_operations"
  using notebook_makes_calls [of x0] by (simp add: makes_calls_def)

lemma printed_callees:
  "map callee (printed tr) = filter (\<lambda>f. f = ''print'' \<or> f = ''.print'') (map callee tr)"
  by (simp add: printed_def filter_map comp_def is_print_def [abs_def])

lemma printed_operations_of_run:
  assumes "completes (notebook_with x0) lib"
  shows "map callee (printed (trace (notebook_with x0) lib)) = printed_operations"
  by (simp add: printed_callees notebook_operations_of_run [OF assms] notebook_operations_def
      report_operations_def printed_operations_def)

lemma aborted_test_prints_nothing:
  assumes "result (cell2_test x0 integrator_keywords) lib = Inl e"
  shows "printed (trace (notebook_with x0) lib) = []"
proof (cases "result cell1 lib")
  case (Inl e')
  then show ?thesis
    by (simp add: notebook_with_def run_simps printed_none [OF cell1_early])
next
  case (Inr ik)
  then have ik: "ik = integrator_keywords" by (rule result_cell1)
  show ?thesis
  proof (cases "result (cell2_train ik) lib")
    case (Inl e')
    then show ?thesis
      using Inr
      by (simp add: notebook_with_def run_simps printed_append printed_none [OF cell1_early]
          printed_none [OF cell2_train_early])
  next
    case x: (Inr x)
    show ?thesis
      using Inr x assms
      by (simp add: ik [symmetric] notebook_with_def run_simps printed_append
          printed_none [OF cell1_early] printed_none [OF cell2_train_early]
          printed_none [OF cell2_test_early])
  qed
qed

subsection \<open>Two runs to look at\<close>

lemma echo_callees:
  "map callee (trace (notebook_with x0) echo_library) =
     [''import'', ''import'', ''import'', ''import'', ''import'',
      ''warnings.filterwarnings'', ''warnings.filterwarnings'',
      ''solve_ivp'', ''.y'', ''.T'',
      ''np.array'', ''solve_ivp'', ''.y'', ''.T'',
      ''import'', ''import'', ''ps.SINDy'', ''ps.PolynomialLibrary'', ''ps.FourierLibrary'',
      ''TimeSeriesSplit'', ''GridSearchCV'', ''.fit'', ''.best_params_'', ''print'',
      ''.best_estimator_'', ''.print'',
      ''ps.SINDyDerivative'', ''ps.SINDy'', ''TimeSeriesSplit'', ''GridSearchCV'', ''.fit'',
      ''.best_params_'', ''print'', ''.best_estimator_'', ''.print'',
      ''import'',
      ''import'', ''SINDy.__init__'', ''.differentiate'', ''ShuffleSplit'', ''GridSearchCV'',
      ''.fit'', ''.best_params_'', ''print'', ''.best_estimator_'', ''.print'',
      ''import'', ''ElasticNet'', ''ps.SINDy'', ''.fit'', ''.print'',
      ''import'', ''OrthogonalMatchingPursuit'', ''ps.SINDy'', ''.fit'', ''.print'']"
  by (simp add: notebook_with_def cell1_def cell2_train_def cell2_test_def cells_3_to_8_def
      cell_defs index_t_train index_t_test solve_ivp_call run_simps callee_def)

lemma echo_completes: "completes (notebook_with x0) echo_library"
  by (simp add: notebook_with_def cell1_def cell2_train_def cell2_test_def cells_3_to_8_def
      cell_defs index_t_train index_t_test solve_ivp_call run_simps completes_def)

lemma echo_test_completes: "completes (cell2_test x0 integrator_keywords) echo_library"
  by (simp add: cell2_test_def index_t_test solve_ivp_call run_simps completes_def)

lemma echo_length: "length (trace (notebook_with x0) echo_library) = 56"
  using arg_cong [OF echo_callees [of x0], of length] by simp

lemma echo_callee_nth:
  "k < 56 \<Longrightarrow> callee (trace (notebook_with x0) echo_library ! k) =
     map callee (trace (notebook_with x0) echo_library) ! k"
  by (simp add: echo_length)

lemma no_pysindy_trace:
  "map snd (trace notebook no_pysindy_library) =
     [Returned (TupleV [StrV ''import'', ListV [StrV ''numpy''], DictV []]),
      Returned (TupleV [StrV ''import'', ListV [StrV ''scipy.integrate'', StrV ''solve_ivp''],
                        DictV []]),
      Raised (LibraryError ''ModuleNotFoundError'')]"
  by (simp add: notebook_def notebook_with_def cell1_def py_import_def run_simps
      no_pysindy_library_def)

lemma strict_library_call [run_simps]:
  "strict_library (Call f args kws) =
     (if f = ''solve_ivp'' \<and> \<not> (case args of [g, tspan, y0] \<Rightarrow> three_components y0 | _ \<Rightarrow> False)
      then Inl (LibraryError ''IndexError'')
      else Inr (TupleV [StrV f, ListV args, DictV kws]))"
  by (simp add: strict_library_def echo_library_def)

lemma strict_completes: "completes notebook strict_library"
  by (simp add: notebook_def notebook_with_def x0_test_literal_def cell1_def cell2_train_def
      cell2_test_def cells_3_to_8_def cell_defs index_t_train index_t_test solve_ivp_call
      run_simps completes_def three_components_def)

lemma strict_test_completes:
  "completes (cell2_test x0_test_literal integrator_keywords) strict_library"
  by (simp add: cell2_test_def x0_test_literal_def index_t_test solve_ivp_call run_simps
      completes_def three_components_def)

lemma strict_refuses:
  "result (cell2_test (ListV [IntV 8, IntV 7]) integrator_keywords) strict_library =
     Inl (LibraryError ''IndexError'')"
  by (simp add: cell2_test_def index_t_test solve_ivp_call run_simps three_components_def)

section \<open>The claims about the notebook\<close>

text \<open>
  C4, as amended. Every model the notebook constructs with \<^verbatim>\<open>ps.SINDy(...)\<close> is given
  \<^verbatim>\<open>t_default=dt\<close> at construction. The one \<^verbatim>\<open>SINDyCV\<close> model (cell 6) is constructed with
  no argument, so its \<^verbatim>\<open>__init__\<close> hands the parent the default \<^verbatim>\<open>t_default=1\<close>. In a run
  that completes, the five constructions pass \<open>dt\<close>, \<open>dt\<close>, \<open>1\<close>, \<open>dt\<close>, \<open>dt\<close>, in this
  order. This holds whatever the libraries return.
\<close>

theorem model_constructions_t_default:
  "(\<forall>ev \<in> set (trace notebook lib).
      (callee ev = ''ps.SINDy'' \<longrightarrow> keyword ev ''t_default'' = Some (FloatV dt)) \<and>
      (callee ev = ''SINDy.__init__'' \<longrightarrow> keyword ev ''t_default'' = Some (IntV 1)))
   \<and> (completes notebook lib \<longrightarrow>
        t_defaults_passed (trace notebook lib) =
          [Some (FloatV dt), Some (FloatV dt), Some (IntV 1), Some (FloatV dt), Some (FloatV dt)])"
proof (intro conjI)
  show "\<forall>ev \<in> set (trace notebook lib).
      (callee ev = ''ps.SINDy'' \<longrightarrow> keyword ev ''t_default'' = Some (FloatV dt)) \<and>
      (callee ev = ''SINDy.__init__'' \<longrightarrow> keyword ev ''t_default'' = Some (IntV 1))"
  proof
    fix ev assume "ev \<in> set (trace notebook lib)"
    then have "passes_t_default ev"
      using notebook_all_t_default [of x0_test_literal] by (simp add: all_events_def notebook_def)
    then show "(callee ev = ''ps.SINDy'' \<longrightarrow> keyword ev ''t_default'' = Some (FloatV dt)) \<and>
        (callee ev = ''SINDy.__init__'' \<longrightarrow> keyword ev ''t_default'' = Some (IntV 1))"
      by (simp add: passes_t_default_def)
  qed
  show "completes notebook lib \<longrightarrow>
      t_defaults_passed (trace notebook lib) =
        [Some (FloatV dt), Some (FloatV dt), Some (IntV 1), Some (FloatV dt), Some (FloatV dt)]"
    by (simp add: notebook_def notebook_t_defaults)
qed

theorem model_constructions_witness:
  "trace notebook echo_library ! 16 \<in> set (trace notebook echo_library)
   \<and> callee (trace notebook echo_library ! 16) = ''ps.SINDy''
   \<and> keyword (trace notebook echo_library ! 16) ''t_default'' = Some (FloatV dt)
   \<and> completes notebook echo_library
   \<and> t_defaults_passed (trace notebook echo_library) =
       [Some (FloatV dt), Some (FloatV dt), Some (IntV 1), Some (FloatV dt), Some (FloatV dt)]"
proof -
  have m: "trace notebook echo_library ! 16 \<in> set (trace notebook echo_library)"
    by (simp add: notebook_def echo_length)
  have c: "callee (trace notebook echo_library ! 16) = ''ps.SINDy''"
    by (simp add: notebook_def echo_callee_nth echo_callees)
  have f: "completes notebook echo_library"
    by (simp add: notebook_def echo_completes)
  from model_constructions_t_default [of echo_library] m c f show ?thesis by blast
qed

text \<open>
  C4 as stated fails at the construction of cell 6: in the run where every library call
  returns, the third model construction passes \<open>t_default = 1\<close>, which is not \<open>dt\<close>.
\<close>

theorem t_default_counterexample:
  "completes notebook echo_library
   \<and> t_defaults_passed (trace notebook echo_library) ! 2 = Some (IntV 1)
   \<and> IntV 1 \<noteq> FloatV dt"
  by (simp add: notebook_def echo_completes notebook_t_defaults)

text \<open>
  C5. The notebook handles no failure. Whatever the libraries do: an exception raised by
  any call is the last event of the run and is the result of the run (no handler catches
  it, nothing is tried again or instead); a run fails in no other way than by a call that
  raises; and the warnings filter is touched only by the two calls of cell 1, ignoring
  \<^verbatim>\<open>UserWarning\<close> and then \<^verbatim>\<open>FutureWarning\<close>, each made at most once, among the first seven
  calls of the run, and both made in every run that completes.
\<close>

theorem notebook_handles_no_failure:
  "(\<forall>k e. k < length (trace notebook lib) \<and> raised e (trace notebook lib ! k) \<longrightarrow>
      Suc k = length (trace notebook lib) \<and> result notebook lib = Inl e)
   \<and> (\<forall>e. result notebook lib = Inl e \<longrightarrow>
        trace notebook lib \<noteq> [] \<and> raised e (last (trace notebook lib)))
   \<and> (\<exists>n \<le> 2. map fst (filter is_warning_filter (trace notebook lib)) = take n warning_filters)
   \<and> (\<forall>k < length (trace notebook lib). is_warning_filter (trace notebook lib ! k) \<longrightarrow> k < 7)
   \<and> (completes notebook lib \<longrightarrow>
        map fst (filter is_warning_filter (trace notebook lib)) = warning_filters)"
proof -
  obtain B where B: "trace notebook lib = trace cell1 lib @ B"
    and nB: "\<forall>ev \<in> set B. callee ev \<in> datagen_callees \<union> model_callees"
    using trace_notebook_with_cell1 [of x0_test_literal lib] by (auto simp: notebook_def)
  have "\<not> is_warning_filter ev" if "ev \<in> set B" for ev
    using nB that by (auto simp: is_warning_filter_def datagen_callees_def model_callees_def)
  then have fB: "filter is_warning_filter B = []" and iB: "\<forall>ev \<in> set B. \<not> is_warning_filter ev"
    by simp_all
  have filt: "filter is_warning_filter (trace notebook lib) =
      filter is_warning_filter (trace cell1 lib)"
    by (simp add: B fB)
  have early: "k < 7" if "k < length (trace notebook lib)"
    and "is_warning_filter (trace notebook lib ! k)" for k
  proof -
    have "k < length (trace cell1 lib)"
    proof (rule ccontr)
      assume "\<not> k < length (trace cell1 lib)"
      then have "trace notebook lib ! k \<in> set B" using that(1) by (simp add: B nth_append)
      then show False using iB that(2) by blast
    qed
    then show ?thesis using cell1_trace_length [of lib] by simp
  qed
  have compl: "completes cell1 lib" if "completes notebook lib"
  proof -
    from that obtain ik where "result cell1 lib = Inr ik"
      by (auto simp: notebook_def notebook_with_def completes_bind)
    then show ?thesis by (simp add: completes_def)
  qed
  show ?thesis
  proof (intro conjI allI impI)
    fix k e
    assume "k < length (trace notebook lib) \<and> raised e (trace notebook lib ! k)"
    then show "Suc k = length (trace notebook lib)" "result notebook lib = Inl e"
      using propagates_notebook_with [of x0_test_literal]
      by (simp_all add: propagates_def notebook_def)
  next
    fix e assume "result notebook lib = Inl e"
    then show "trace notebook lib \<noteq> []" "raised e (last (trace notebook lib))"
      using fails_in_library_notebook_with [of x0_test_literal]
      by (simp_all add: fails_in_library_def notebook_def)
  next
    show "\<exists>n \<le> 2. map fst (filter is_warning_filter (trace notebook lib)) = take n warning_filters"
      by (simp only: filt cell1_warning_filters)
  next
    fix k assume "k < length (trace notebook lib)" "is_warning_filter (trace notebook lib ! k)"
    then show "k < 7" by (rule early)
  next
    assume "completes notebook lib"
    then show "map fst (filter is_warning_filter (trace notebook lib)) = warning_filters"
      by (simp only: filt cell1_warning_filters_complete [OF compl])
  qed
qed

theorem notebook_handles_no_failure_witness:
  "(2::nat) < length (trace notebook no_pysindy_library)
   \<and> raised (LibraryError ''ModuleNotFoundError'') (trace notebook no_pysindy_library ! 2)
   \<and> Suc 2 = length (trace notebook no_pysindy_library)
   \<and> result notebook no_pysindy_library = Inl (LibraryError ''ModuleNotFoundError'')
   \<and> completes notebook echo_library
   \<and> map fst (filter is_warning_filter (trace notebook echo_library)) = warning_filters"
proof -
  have l: "length (trace notebook no_pysindy_library) = 3"
    using arg_cong [OF no_pysindy_trace, of length] by simp
  have "snd (trace notebook no_pysindy_library ! 2) = map snd (trace notebook no_pysindy_library) ! 2"
    by (simp add: l)
  then have r: "raised (LibraryError ''ModuleNotFoundError'') (trace notebook no_pysindy_library ! 2)"
    by (simp add: no_pysindy_trace raised_def)
  have f: "completes notebook echo_library"
    by (simp add: notebook_def echo_completes)
  have "2 < length (trace notebook no_pysindy_library) \<and>
      raised (LibraryError ''ModuleNotFoundError'') (trace notebook no_pysindy_library ! 2)"
    using l r by simp
  then have a: "Suc 2 = length (trace notebook no_pysindy_library) \<and>
      result notebook no_pysindy_library = Inl (LibraryError ''ModuleNotFoundError'')"
    using notebook_handles_no_failure [of no_pysindy_library] by blast
  have b: "map fst (filter is_warning_filter (trace notebook echo_library)) = warning_filters"
    using notebook_handles_no_failure [of echo_library] f by blast
  from l r f a b show ?thesis by simp
qed

text \<open>
  C7. The operations of a run come in the order data, model, search or fit, print.
  Whatever the libraries do: every numerical integration comes before every model
  construction; what is handed to \<^verbatim>\<open>GridSearchCV\<close> or is the receiver of \<^verbatim>\<open>fit\<close> is the
  value an earlier constructor call returned; and what a print statement prints is the
  value an earlier, completed \<^verbatim>\<open>fit\<close> returned, or an attribute read from it. And the
  operations do occur: a run that completes makes exactly the calls of
  \<open>notebook_operations\<close>, in that order: the two integrations of cell 2, then in each of
  the cells 3, 4, 6, 7 and 8 the construction of a model, the search or fit it is handed
  to, and the prints.
\<close>

theorem notebook_runs_in_order:
  "(\<forall>i j. i < length (trace notebook lib) \<and> j < length (trace notebook lib) \<and>
      is_integration (trace notebook lib ! i) \<and> is_model_construction (trace notebook lib ! j)
      \<longrightarrow> i < j)
   \<and> (\<forall>k < length (trace notebook lib).
        is_search_construction (trace notebook lib ! k) \<or> is_fit (trace notebook lib ! k)
        \<longrightarrow> built_before (take k (trace notebook lib)) (trace notebook lib ! k))
   \<and> (\<forall>k < length (trace notebook lib).
        is_print (trace notebook lib ! k)
        \<longrightarrow> reports_fit (take k (trace notebook lib)) (trace notebook lib ! k))
   \<and> (completes notebook lib \<longrightarrow> map callee (trace notebook lib) = notebook_operations)"
proof (intro conjI allI impI)
  fix i j
  assume a: "i < length (trace notebook lib) \<and> j < length (trace notebook lib) \<and>
      is_integration (trace notebook lib ! i) \<and> is_model_construction (trace notebook lib ! j)"
  obtain A B where AB: "trace notebook lib = A @ B"
    "\<forall>ev \<in> set A. callee ev \<in> setup_callees \<union> datagen_callees"
    "\<forall>ev \<in> set B. callee ev \<in> model_callees"
    using trace_notebook_with_split [of x0_test_literal lib] by (auto simp: notebook_def)
  have "\<forall>ev \<in> set A. \<not> is_model_construction ev"
    using AB(2) by (auto simp: is_model_construction_def setup_callees_def datagen_callees_def)
  moreover have "\<forall>ev \<in> set B. \<not> is_integration ev"
    using AB(3) by (auto simp: is_integration_def model_callees_def)
  ultimately show "i < j"
    using split_order [OF AB(1), of is_model_construction is_integration i j] a by blast
next
  fix k assume "k < length (trace notebook lib)"
    and "is_search_construction (trace notebook lib ! k) \<or> is_fit (trace notebook lib ! k)"
  then show "built_before (take k (trace notebook lib)) (trace notebook lib ! k)"
    using ordered_notebook_with [of x0_test_literal]
    unfolding ordered_def each_after_def in_order_def notebook_def by blast
next
  fix k assume "k < length (trace notebook lib)" and "is_print (trace notebook lib ! k)"
  then show "reports_fit (take k (trace notebook lib)) (trace notebook lib ! k)"
    using ordered_notebook_with [of x0_test_literal]
    unfolding ordered_def each_after_def in_order_def notebook_def by blast
next
  assume "completes notebook lib"
  then show "map callee (trace notebook lib) = notebook_operations"
    by (simp add: notebook_def notebook_operations_of_run)
qed

theorem notebook_runs_in_order_witness:
  "length (trace notebook echo_library) = 56
   \<and> is_integration (trace notebook echo_library ! 11)
   \<and> is_model_construction (trace notebook echo_library ! 16)
   \<and> is_search_construction (trace notebook echo_library ! 40)
   \<and> built_before (take 40 (trace notebook echo_library)) (trace notebook echo_library ! 40)
   \<and> is_fit (trace notebook echo_library ! 54)
   \<and> built_before (take 54 (trace notebook echo_library)) (trace notebook echo_library ! 54)
   \<and> is_print (trace notebook echo_library ! 45)
   \<and> reports_fit (take 45 (trace notebook echo_library)) (trace notebook echo_library ! 45)
   \<and> completes notebook echo_library
   \<and> map callee (trace notebook echo_library) = notebook_operations"
proof -
  have l: "length (trace notebook echo_library) = 56"
    by (simp add: notebook_def echo_length)
  have c: "is_integration (trace notebook echo_library ! 11)"
    "is_model_construction (trace notebook echo_library ! 16)"
    "is_search_construction (trace notebook echo_library ! 40)"
    "is_fit (trace notebook echo_library ! 54)"
    "is_print (trace notebook echo_library ! 45)"
    by (simp_all add: notebook_def echo_callee_nth echo_callees is_integration_def
        is_model_construction_def is_search_construction_def is_fit_def is_print_def)
  have f: "completes notebook echo_library"
    by (simp add: notebook_def echo_completes)
  from notebook_runs_in_order [of echo_library] l c f show ?thesis
    by simp
qed

text \<open>
  C9, as amended. Nothing after cell 2 reads \<^verbatim>\<open>t_test\<close>, \<^verbatim>\<open>x0_test\<close> or \<^verbatim>\<open>x_test\<close>:
  \<open>cells_3_to_8\<close> is given \<^verbatim>\<open>x_train\<close> only. So, with the same libraries (the same answer
  to the same call, the random splits of \<^verbatim>\<open>ShuffleSplit\<close> included), two runs that differ
  in the initial condition of the test trajectory, and in both of which the statements
  computing \<^verbatim>\<open>x_test\<close> return, print the same and end the same; and so does the run with
  the computation of \<^verbatim>\<open>x_test\<close> taken out. What a run that completes prints are the eight
  print statements of \<open>printed_operations\<close>. The file's own run is
  \<open>notebook_with x0_test_literal\<close>.
\<close>

theorem test_trajectory_is_never_read:
  "(completes (cell2_test x0 integrator_keywords) lib \<and>
    completes (cell2_test x0' integrator_keywords) lib \<longrightarrow>
      printed (trace (notebook_with x0) lib) = printed (trace (notebook_with x0') lib) \<and>
      result (notebook_with x0) lib = result (notebook_with x0') lib)
   \<and> (completes (cell2_test x0 integrator_keywords) lib \<longrightarrow>
      printed (trace (notebook_with x0) lib) = printed (trace notebook_without_test lib) \<and>
      result (notebook_with x0) lib = result notebook_without_test lib)
   \<and> (completes (notebook_with x0) lib \<longrightarrow>
      map callee (printed (trace (notebook_with x0) lib)) = printed_operations)"
  using notebook_with_vs_without [of x0 lib] notebook_with_vs_without [of x0' lib]
    printed_operations_of_run [of x0 lib]
  by simp

theorem test_trajectory_witness:
  "completes (cell2_test x0_test_literal integrator_keywords) echo_library
   \<and> completes (cell2_test (ListV [IntV 0, IntV 1, IntV 20]) integrator_keywords) echo_library
   \<and> printed (trace (notebook_with x0_test_literal) echo_library) =
       printed (trace (notebook_with (ListV [IntV 0, IntV 1, IntV 20])) echo_library)
   \<and> printed (trace notebook echo_library) = printed (trace notebook_without_test echo_library)
   \<and> completes notebook echo_library
   \<and> map callee (printed (trace notebook echo_library)) = printed_operations"
proof -
  have f: "completes (notebook_with x0_test_literal) echo_library"
    by (rule echo_completes)
  from test_trajectory_is_never_read
    [of x0_test_literal echo_library "ListV [IntV 0, IntV 1, IntV 20]"]
    echo_test_completes f
  show ?thesis unfolding notebook_def by metis
qed

text \<open>
  C9 as stated fails where the computation of \<^verbatim>\<open>x_test\<close> raises. With a \<^verbatim>\<open>solve_ivp\<close>
  that refuses an initial condition of two components, the run with
  \<^verbatim>\<open>x0_test = np.array([8, 7])\<close> stops in cell 2 and prints nothing, while the run of the
  file and the run without the test trajectory print eight times.
\<close>

theorem test_trajectory_counterexample:
  "printed (trace (notebook_with (ListV [IntV 8, IntV 7])) strict_library) = []
   \<and> length (printed (trace notebook strict_library)) = 8
   \<and> length (printed (trace notebook_without_test strict_library)) = 8"
proof -
  have a: "printed (trace (notebook_with (ListV [IntV 8, IntV 7])) strict_library) = []"
    by (rule aborted_test_prints_nothing [OF strict_refuses])
  have "map callee (printed (trace notebook strict_library)) = printed_operations"
    using strict_completes by (simp add: notebook_def printed_operations_of_run)
  then have "length (map callee (printed (trace notebook strict_library))) = 8"
    by (simp add: printed_operations_def)
  then have b: "length (printed (trace notebook strict_library)) = 8" by simp
  have "printed (trace notebook strict_library) = printed (trace notebook_without_test strict_library)"
    using notebook_with_vs_without(2) [OF strict_test_completes] by (simp add: notebook_def)
  with a b show ?thesis by simp
qed

end
